theory Spec2Isabelle
  imports Main
begin

section \<open>JSON values and JavaScript objects\<close>

text \<open>
  The tool reads \<^verbatim>\<open>package.json\<close> and the output of \<^verbatim>\<open>npm\<close> with
  \<^verbatim>\<open>JSON.parse\<close>. A parsed value is one of the six JSON shapes. A number carries
  an integer here: the code only ever tests a number for truthiness, where nothing but
  zero matters. An object is the list of its own properties in property order; the
  result of \<^verbatim>\<open>JSON.parse\<close> has no key twice. The value \<^verbatim>\<open>undefined\<close> of a
  missing property is \<open>None\<close> in a \<open>json option\<close>.
\<close>

datatype json =
    JNull
  | JBool bool
  | JNum int
  | JStr string
  | JArr "json list"
  | JObj "(string \<times> json) list"

type_synonym obj = "(string \<times> json) list"

text \<open>JavaScript truthiness, as used by \<^verbatim>\<open>&&\<close>, \<^verbatim>\<open>||\<close> and \<^verbatim>\<open>if\<close>.\<close>

fun truthy :: "json \<Rightarrow> bool" where
  "truthy JNull = False"
| "truthy (JBool b) = b"
| "truthy (JNum n) = (n \<noteq> 0)"
| "truthy (JStr s) = (s \<noteq> [])"
| "truthy (JArr xs) = True"
| "truthy (JObj kvs) = True"

text \<open>
  The properties every object inherits from \<^verbatim>\<open>Object.prototype\<close>. Reading one of
  them from an object that has no own property of that name gives a function (or, for
  \<^verbatim>\<open>__proto__\<close>, the prototype object): a truthy value.
\<close>

definition object_prototype_names :: "string list" where
  "object_prototype_names =
     [''constructor'', ''hasOwnProperty'', ''isPrototypeOf'', ''propertyIsEnumerable'',
      ''toLocaleString'', ''toString'', ''valueOf'', ''__proto__'',
      ''__defineGetter__'', ''__defineSetter__'', ''__lookupGetter__'', ''__lookupSetter__'']"

text \<open>
  The test \<^verbatim>\<open>bucket && bucket[name]\<close> of \<^verbatim>\<open>checkDependencies\<close>: the bucket is
  absent (\<open>None\<close>) or an object; an own property decides by its truthiness, otherwise
  the prototype chain is consulted.
\<close>

definition bucket_has :: "obj option \<Rightarrow> string \<Rightarrow> bool" where
  "bucket_has bucket nm =
     (case bucket of
        None \<Rightarrow> False
      | Some ob \<Rightarrow>
          (case map_of ob nm of
             Some v \<Rightarrow> truthy v
           | None \<Rightarrow> nm \<in> set object_prototype_names))"

text \<open>
  Assigning a property keeps the position of a key the object already has and appends a
  new key at the end. The spread \<^verbatim>\<open>{...a, ...b}\<close> assigns the properties of each
  source in turn to a fresh object. (JavaScript lists keys that look like array indices
  first; no statement below depends on the order of the entries.)
\<close>

fun set_prop :: "obj \<Rightarrow> string \<Rightarrow> json \<Rightarrow> obj" where
  "set_prop [] k v = [(k, v)]"
| "set_prop ((k', v') # ps) k v =
     (if k' = k then (k, v) # ps else (k', v') # set_prop ps k v)"

definition spread :: "obj \<Rightarrow> obj \<Rightarrow> obj" where
  "spread target source = fold (\<lambda>(k, v) acc. set_prop acc k v) source target"

text \<open>\<^verbatim>\<open>bucket || {}\<close>\<close>

definition or_empty :: "obj option \<Rightarrow> obj" where
  "or_empty bucket = (case bucket of None \<Rightarrow> [] | Some ob \<Rightarrow> ob)"

section \<open>The manifest\<close>

text \<open>
  The three dependency buckets of \<^verbatim>\<open>package.json\<close>. A bucket is absent (or
  \<^verbatim>\<open>null\<close>, which the code treats alike) or an object from package names to JSON
  values: a declared range is a string, but nothing stops a manifest from holding another
  value there. A manifest whose top level is not an object, or whose bucket is a string, a
  number or an array, is not covered.
\<close>

record manifest =
  dependencies :: "obj option"
  devDependencies :: "obj option"
  peerDependencies :: "obj option"

text \<open>What \<^verbatim>\<open>access\<close>, \<^verbatim>\<open>readFile\<close> and \<^verbatim>\<open>JSON.parse\<close> find at \<^verbatim>\<open>package.json\<close>.\<close>

datatype package_file = Missing | Unparseable | Parsed manifest

definition allDeps :: "manifest \<Rightarrow> obj" where
  "allDeps pj =
     spread (spread (spread [] (or_empty (dependencies pj)))
                    (or_empty (devDependencies pj)))
            (or_empty (peerDependencies pj))"

section \<open>The semver package\<close>

text \<open>
  \<^verbatim>\<open>checkDependencies\<close> calls two functions of the \<^verbatim>\<open>semver\<close> package, which is
  not part of this repository. They are parameters of the model:
  \<^item> \<open>sv_gt a b\<close> is \<^verbatim>\<open>semver.gt(a, b)\<close>; \<open>None\<close> when it throws because one of
    the strings is not a version;
  \<^item> \<open>sv_satisfies v r\<close> is \<^verbatim>\<open>semver.satisfies(v, r)\<close>, which never throws and
    is false for a string that is not a version or not a range.
\<close>

record semver =
  sv_gt :: "string \<Rightarrow> string \<Rightarrow> bool option"
  sv_satisfies :: "string \<Rightarrow> string \<Rightarrow> bool"

text \<open>
  \<^verbatim>\<open>semver.maxSatisfying(versions, range)\<close> walks the list and keeps the greatest
  element that satisfies the range; it returns that element as it stands in the list, or
  \<^verbatim>\<open>null\<close> when no element satisfies the range.
\<close>

definition maxSatisfying :: "semver \<Rightarrow> string list \<Rightarrow> string \<Rightarrow> string option" where
  "maxSatisfying sv versions rng =
     fold (\<lambda>v mx.
             if sv_satisfies sv v rng then
               (case mx of
                  None \<Rightarrow> Some v
                | Some m \<Rightarrow> if m = [] \<or> sv_gt sv v m = Some True then Some v else Some m)
             else mx)
          versions None"

subsection \<open>A concrete instance on plain release versions\<close>

text \<open>
  For concrete runs: the package's behaviour on versions of the plain form
  \<^verbatim>\<open>MAJOR.MINOR.PATCH\<close> (each part a decimal number without a leading zero and not
  above \<^verbatim>\<open>Number.MAX_SAFE_INTEGER\<close>) and on ranges made of one operator and one such
  version. Versions with a pre-release or build part, with a leading \<^verbatim>\<open>v\<close> or with
  surrounding blanks, and compound ranges are outside this instance, which rejects them;
  it serves the closed examples below only, every general statement is about an
  arbitrary \<open>semver\<close>.
\<close>

definition is_digit :: "char \<Rightarrow> bool" where
  "is_digit c = (c \<in> set ''0123456789'')"

definition digit_value :: "char \<Rightarrow> nat" where
  "digit_value c = of_char c - 48"

definition numeric_identifier :: "string \<Rightarrow> nat option" where
  "numeric_identifier s =
     (if s \<noteq> [] \<and> list_all is_digit s \<and> (length s = 1 \<or> hd s \<noteq> CHR ''0'')
         \<and> fold (\<lambda>c n. 10 * n + digit_value c) s 0 \<le> 9007199254740991
      then Some (fold (\<lambda>c n. 10 * n + digit_value c) s 0)
      else None)"

fun split_dots :: "string \<Rightarrow> string list" where
  "split_dots [] = [] # []"
| "split_dots (c # cs) =
     (if c = CHR ''.'' then [] # split_dots cs
      else (case split_dots cs of
              [] \<Rightarrow> [c] # []
            | p # ps \<Rightarrow> (c # p) # ps))"

definition parse_version :: "string \<Rightarrow> (nat \<times> nat \<times> nat) option" where
  "parse_version s =
     (case split_dots s of
        [a, b, c] \<Rightarrow>
          (case (numeric_identifier a, numeric_identifier b, numeric_identifier c) of
             (Some x, Some y, Some z) \<Rightarrow> Some (x, y, z)
           | _ \<Rightarrow> None)
      | _ \<Rightarrow> None)"

fun version_less :: "nat \<times> nat \<times> nat \<Rightarrow> nat \<times> nat \<times> nat \<Rightarrow> bool" where
  "version_less (a1, a2, a3) (b1, b2, b3) =
     (a1 < b1 \<or> (a1 = b1 \<and> (a2 < b2 \<or> (a2 = b2 \<and> a3 < b3))))"

definition plain_gt :: "string \<Rightarrow> string \<Rightarrow> bool option" where
  "plain_gt a b =
     (case (parse_version a, parse_version b) of
        (Some x, Some y) \<Rightarrow> Some (version_less y x)
      | _ \<Rightarrow> None)"

definition range_operator_chars :: "char list" where
  "range_operator_chars = ''^~>=<''"

fun caret_upper :: "nat \<times> nat \<times> nat \<Rightarrow> nat \<times> nat \<times> nat" where
  "caret_upper (a, b, c) =
     (if a \<noteq> 0 then (a + 1, 0, 0) else if b \<noteq> 0 then (0, b + 1, 0) else (0, 0, c + 1))"

fun tilde_upper :: "nat \<times> nat \<times> nat \<Rightarrow> nat \<times> nat \<times> nat" where
  "tilde_upper (a, b, c) = (a, b + 1, 0)"

definition plain_satisfies :: "string \<Rightarrow> string \<Rightarrow> bool" where
  "plain_satisfies v rng =
     (let opr = takeWhile (\<lambda>c. c \<in> set range_operator_chars) rng;
          rest = dropWhile (\<lambda>c. c \<in> set range_operator_chars) rng
      in case (parse_version v, parse_version rest) of
           (Some x, Some y) \<Rightarrow>
             (if opr = ''^'' then \<not> version_less x y \<and> version_less x (caret_upper y)
              else if opr = ''~'' \<or> opr = ''~>''
                then \<not> version_less x y \<and> version_less x (tilde_upper y)
              else if opr = [] \<or> opr = ''='' then x = y
              else if opr = ''>'' then version_less y x
              else if opr = ''>='' then \<not> version_less x y
              else if opr = ''<'' then version_less x y
              else if opr = ''<='' then \<not> version_less y x
              else False)
         | _ \<Rightarrow> False)"

definition plain_semver :: semver where
  "plain_semver = \<lparr> sv_gt = plain_gt, sv_satisfies = plain_satisfies \<rparr>"

section \<open>checker.js: the outdated packages\<close>

text \<open>
  The repository holds \<^verbatim>\<open>checker.js\<close> twice, as a CommonJS and as an ES module; the
  body of \<^verbatim>\<open>checkDependencies\<close> and of \<^verbatim>\<open>getLatestVersion\<close> is the same in both,
  and one model serves for both.
\<close>

text \<open>
  \<^verbatim>\<open>str.startsWith(p)\<close> and \<^verbatim>\<open>currentVersion.replace(/^[\^~>=<]+/, '')\<close>.
\<close>

definition startsWith :: "string \<Rightarrow> string \<Rightarrow> bool" where
  "startsWith s p = (take (length p) s = p)"

definition cleanVersion :: "string \<Rightarrow> string" where
  "cleanVersion currentVersion = dropWhile (\<lambda>c. c \<in> set range_operator_chars) currentVersion"

datatype dep_type = Prod | Dev | Peer

record outdated =
  name :: string
  current :: string
  latest :: string
  wanted :: string
  type :: dep_type

text \<open>The two warnings of \<^verbatim>\<open>checker.js\<close>, each with the package it names.\<close>

datatype warning = CouldNotFetch string | CouldNotCheck string

text \<open>
  \<^verbatim>\<open>getLatestVersion\<close> runs \<^verbatim>\<open>npm view <name> version --json\<close> and parses what it
  prints. The world is the parameter \<open>npm_view\<close>: \<open>None\<close> when \<^verbatim>\<open>execSync\<close> throws
  (non-zero exit, the 5 s timeout) or \<^verbatim>\<open>JSON.parse\<close> throws, else the parsed value.
  On failure the function warns and returns \<^verbatim>\<open>null\<close>.
\<close>

definition getLatestVersion :: "(string \<Rightarrow> json option) \<Rightarrow> string \<Rightarrow> warning list \<times> json" where
  "getLatestVersion npm_view packageName =
     (case npm_view packageName of
        None \<Rightarrow> ([CouldNotFetch packageName], JNull)
      | Some j \<Rightarrow> ([], j))"

text \<open>
  \<^verbatim>\<open>semver.maxSatisfying([latestVersion], currentVersion) || latestVersion\<close>
\<close>

definition wantedVersion :: "semver \<Rightarrow> string \<Rightarrow> string \<Rightarrow> string" where
  "wantedVersion sv latestVersion currentVersion =
     (case maxSatisfying sv [latestVersion] currentVersion of
        None \<Rightarrow> latestVersion
      | Some v \<Rightarrow> if v \<noteq> [] then v else latestVersion)"

text \<open>
  The \<^verbatim>\<open>type\<close> of a record: \<^verbatim>\<open>'prod'\<close>, overwritten by \<^verbatim>\<open>'dev'\<close> when the
  name is found in \<^verbatim>\<open>devDependencies\<close>, else by \<^verbatim>\<open>'peer'\<close> when it is found in
  \<^verbatim>\<open>peerDependencies\<close>.
\<close>

definition dependency_type :: "manifest \<Rightarrow> string \<Rightarrow> dep_type" where
  "dependency_type pj nm =
     (if bucket_has (devDependencies pj) nm then Dev
      else if bucket_has (peerDependencies pj) nm then Peer
      else Prod)"

text \<open>
  One turn of the loop over \<^verbatim>\<open>Object.entries(allDeps)\<close>. A value that is not a
  string has no \<^verbatim>\<open>startsWith\<close>: the call throws outside the inner \<^verbatim>\<open>try\<close>, so
  the error leaves the loop (\<open>Propagate\<close>). Everything after that is inside the inner
  \<^verbatim>\<open>try\<close>: \<^verbatim>\<open>semver.gt\<close> throwing (an invalid version, or a latest version that is
  not a string) becomes the warning \<open>CouldNotCheck\<close>.
\<close>

datatype entry_result = Propagate | Continue "warning list" "outdated list"

definition check_entry ::
  "semver \<Rightarrow> (string \<Rightarrow> json option) \<Rightarrow> manifest \<Rightarrow> string \<Rightarrow> json \<Rightarrow> entry_result" where
  "check_entry sv npm_view pj nm currentValue =
     (case currentValue of
        JStr currentVersion \<Rightarrow>
          if startsWith currentVersion ''file:'' \<or> startsWith currentVersion ''git+''
          then Continue [] []
          else
            (case getLatestVersion npm_view nm of
               (ws, JStr latestVersion) \<Rightarrow>
                 if latestVersion = [] then Continue ws []
                 else
                   (case sv_gt sv latestVersion (cleanVersion currentVersion) of
                      None \<Rightarrow> Continue (ws @ [CouldNotCheck nm]) []
                    | Some False \<Rightarrow> Continue ws []
                    | Some True \<Rightarrow>
                        Continue ws
                          [\<lparr> name = nm,
                             current = currentVersion,
                             latest = latestVersion,
                             wanted = ''^'' @ wantedVersion sv latestVersion currentVersion,
                             type = dependency_type pj nm \<rparr>])
             | (ws, other) \<Rightarrow>
                 if truthy other then Continue (ws @ [CouldNotCheck nm]) []
                 else Continue ws [])
      | _ \<Rightarrow> Propagate)"

text \<open>
  The loop, with the warnings printed so far and the array \<^verbatim>\<open>outdated\<close> as
  accumulators. An error that leaves the loop is rethrown by the outer \<^verbatim>\<open>catch\<close> as
  \<^verbatim>\<open>Error checking dependencies\<close>; so are a missing and an unparseable manifest.
\<close>

datatype fatal = ErrorCheckingDependencies

fun check_loop ::
  "semver \<Rightarrow> (string \<Rightarrow> json option) \<Rightarrow> manifest \<Rightarrow> obj \<Rightarrow>
   warning list \<Rightarrow> outdated list \<Rightarrow> warning list \<times> (fatal + outdated list)" where
  "check_loop sv npm_view pj [] ws out = (ws, Inr out)"
| "check_loop sv npm_view pj ((nm, v) # es) ws out =
     (case check_entry sv npm_view pj nm v of
        Propagate \<Rightarrow> (ws, Inl ErrorCheckingDependencies)
      | Continue ws' rs \<Rightarrow> check_loop sv npm_view pj es (ws @ ws') (out @ rs))"

definition checkDependencies ::
  "semver \<Rightarrow> (string \<Rightarrow> json option) \<Rightarrow> package_file \<Rightarrow>
   warning list \<times> (fatal + outdated list)" where
  "checkDependencies sv npm_view file =
     (case file of
        Missing \<Rightarrow> ([], Inl ErrorCheckingDependencies)
      | Unparseable \<Rightarrow> ([], Inl ErrorCheckingDependencies)
      | Parsed pj \<Rightarrow> check_loop sv npm_view pj (allDeps pj) [] [])"

section \<open>security.js: shared parts of the two variants\<close>

text \<open>
  The repository holds two variants of the vulnerability check: the CommonJS file
  \<^verbatim>\<open>src/security.js\<close> (suffix \<open>_cjs\<close> below), which probes for \<^verbatim>\<open>npm audit\<close>
  and falls back on the registry, and an ES-module variant (suffix \<open>_esm\<close>), which
  only runs \<^verbatim>\<open>npm audit\<close> and inspects its failure.
\<close>

text \<open>
  A field of a vulnerability record: absent or \<^verbatim>\<open>undefined\<close>, a JSON value (taken
  from a payload, or a string constant of the code), or a template literal
  \<^verbatim>\<open>`prefix${value}`\<close> kept as its two parts.
\<close>

datatype field = Undefined | Val json | Template string "json option"

record vulnerability =
  vuln_name :: string
  version :: field
  severity :: field
  title :: field
  url :: field
  vulnerable_versions :: field
  patched_versions :: field
  advisory :: field

text \<open>
  Reading a property of a value that is not \<^verbatim>\<open>null\<close>. The names the code reads
  (\<^verbatim>\<open>vulnerabilities\<close>, \<^verbatim>\<open>via\<close>, \<^verbatim>\<open>severity\<close>, \<^verbatim>\<open>title\<close>, ...) are neither built
  into strings, numbers or arrays nor inherited from a prototype, so only an own property
  of an object gives a value. Reading from \<^verbatim>\<open>null\<close> throws; the callers test for it.
\<close>

definition get_prop :: "json \<Rightarrow> string \<Rightarrow> json option" where
  "get_prop v k = (case v of JObj kvs \<Rightarrow> map_of kvs k | _ \<Rightarrow> None)"

definition truthy_opt :: "json option \<Rightarrow> bool" where
  "truthy_opt x = (case x of None \<Rightarrow> False | Some v \<Rightarrow> truthy v)"

text \<open>\<^verbatim>\<open>x || d\<close> and a plain read, as record fields.\<close>

definition or_else :: "json option \<Rightarrow> field \<Rightarrow> field" where
  "or_else x d = (if truthy_opt x then Val (the x) else d)"

definition as_field :: "json option \<Rightarrow> field" where
  "as_field x = (case x of None \<Rightarrow> Undefined | Some v \<Rightarrow> Val v)"

text \<open>
  \<^verbatim>\<open>Object.entries\<close> of a value that is not \<^verbatim>\<open>null\<close>: the own properties of an
  object, the indexed elements of an array, the indexed characters of a string, nothing
  for a number or a boolean.
\<close>

fun decimal :: "nat \<Rightarrow> string" where
  "decimal n =
     (if n < 10 then [char_of (48 + n)]
      else decimal (n div 10) @ [char_of (48 + n mod 10)])"

declare decimal.simps [simp del]

definition indexed :: "json list \<Rightarrow> obj" where
  "indexed xs = zip (map decimal [0 ..< length xs]) xs"

fun object_entries :: "json \<Rightarrow> obj" where
  "object_entries (JObj kvs) = kvs"
| "object_entries (JArr xs) = indexed xs"
| "object_entries (JStr s) = indexed (map (\<lambda>c. JStr [c]) s)"
| "object_entries v = []"

text \<open>\<^verbatim>\<open>s.includes(p)\<close>\<close>

fun str_includes :: "string \<Rightarrow> string \<Rightarrow> bool" where
  "str_includes [] p = (p = [])"
| "str_includes (c # cs) p = (startsWith (c # cs) p \<or> str_includes cs p)"

text \<open>
  One run of \<^verbatim>\<open>execSync('npm audit --json')\<close>: it returns the captured output, or
  throws an error that carries the exit status (\<^verbatim>\<open>null\<close> when the process was killed,
  as by the timeout), the captured output and a message. \<^verbatim>\<open>JSON.parse\<close> is the
  parameter \<open>parse\<close> of the functions below, \<open>None\<close> when it throws.
\<close>

record exec_error =
  status :: "int option"
  stdout :: string
  message :: string

datatype exec_result = ExecOk string | ExecFail exec_error

datatype exn = FailedToRunNpmAudit | FailedToCheckVulnerabilities

section \<open>security.js, CommonJS variant\<close>

definition hasNpmAudit :: "exec_result \<Rightarrow> bool" where
  "hasNpmAudit probe = (case probe of ExecOk out \<Rightarrow> True | ExecFail e \<Rightarrow> False)"

text \<open>
  One entry of \<^verbatim>\<open>audit.vulnerabilities\<close> in \<^verbatim>\<open>checkWithNpmAudit\<close>: \<open>None\<close> when
  the body throws (\<^verbatim>\<open>data\<close> is \<^verbatim>\<open>null\<close>), else the records to push.
\<close>

definition audit_entry_cjs :: "string \<Rightarrow> json \<Rightarrow> vulnerability list option" where
  "audit_entry_cjs nm data =
     (case data of
        JNull \<Rightarrow> None
      | _ \<Rightarrow>
          if truthy_opt (get_prop data ''via'') then
            (let via = the (get_prop data ''via'');
                 vuln = (case via of
                           JArr xs \<Rightarrow> (case xs of [] \<Rightarrow> None | x # rest \<Rightarrow> Some x)
                         | _ \<Rightarrow> Some via)
             in if truthy_opt vuln then
                  Some [\<lparr> vuln_name = nm,
                          version = Undefined,
                          severity = as_field (get_prop data ''severity''),
                          title = or_else (get_prop (the vuln) ''title'') (Val (JStr ''Unknown vulnerability'')),
                          url = or_else (get_prop (the vuln) ''url'') (Val (JStr [])),
                          vulnerable_versions = or_else (get_prop data ''range'') (Val (JStr ''*'')),
                          patched_versions =
                            (if truthy_opt (get_prop (the vuln) ''fixedIn'')
                             then Template ''>='' (get_prop (the vuln) ''fixedIn'')
                             else Val (JStr ''No fix available'')),
                          advisory = or_else (get_prop (the vuln) ''advisory'') (Val (JStr [])) \<rparr>]
                else Some [])
          else Some [])"

fun audit_loop_cjs :: "obj \<Rightarrow> vulnerability list \<Rightarrow> vulnerability list option" where
  "audit_loop_cjs [] vulnerabilities = Some vulnerabilities"
| "audit_loop_cjs ((nm, data) # es) vulnerabilities =
     (case audit_entry_cjs nm data of
        None \<Rightarrow> None
      | Some rs \<Rightarrow> audit_loop_cjs es (vulnerabilities @ rs))"

text \<open>
  \<^verbatim>\<open>checkWithNpmAudit\<close>: whatever is thrown inside (by \<^verbatim>\<open>execSync\<close>, by
  \<^verbatim>\<open>JSON.parse\<close>, by a read from \<^verbatim>\<open>null\<close>) is rethrown as
  \<^verbatim>\<open>Failed to run npm audit\<close>.
\<close>

definition checkWithNpmAudit_cjs ::
  "(string \<Rightarrow> json option) \<Rightarrow> exec_result \<Rightarrow> exn + vulnerability list" where
  "checkWithNpmAudit_cjs parse run =
     (case run of
        ExecFail e \<Rightarrow> Inl FailedToRunNpmAudit
      | ExecOk result \<Rightarrow>
          (case parse result of
             None \<Rightarrow> Inl FailedToRunNpmAudit
           | Some JNull \<Rightarrow> Inl FailedToRunNpmAudit
           | Some audit \<Rightarrow>
               if \<not> truthy_opt (get_prop audit ''vulnerabilities'') then Inr []
               else
                 (case audit_loop_cjs (object_entries (the (get_prop audit ''vulnerabilities''))) [] of
                    None \<Rightarrow> Inl FailedToRunNpmAudit
                  | Some vulnerabilities \<Rightarrow> Inr vulnerabilities)))"

text \<open>
  The registry fallback. One \<^verbatim>\<open>fetch\<close> of
  \<^verbatim>\<open>https://registry.npmjs.org/<name>/<version>\<close> ends in one of four ways; the first
  three throw inside the \<^verbatim>\<open>try\<close> of \<^verbatim>\<open>getPackageVulnerabilities\<close>. The world is
  the parameter \<open>registry\<close>: its answer may depend on how many requests were made
  before.
\<close>

datatype response = NetworkError | HttpError nat | InvalidBody | Body json

text \<open>
  The module state: the \<^verbatim>\<open>Map\<close> \<^verbatim>\<open>vulnerabilityCache\<close>, and (for counting) the list
  of requests sent to the registry so far.
\<close>

record sec_state =
  cache :: "string \<rightharpoonup> vulnerability list"
  requests :: "(string \<times> string) list"

definition initial_state :: sec_state where
  "initial_state = \<lparr> cache = Map.empty, requests = [] \<rparr>"

definition cacheKey :: "string \<Rightarrow> string \<Rightarrow> string" where
  "cacheKey nm ver = nm @ ''@'' @ ver"

text \<open>
  The record pushed for one value of \<^verbatim>\<open>data.vulnerabilities\<close>, and the loop over
  \<^verbatim>\<open>Object.values(data.vulnerabilities)\<close>; \<open>None\<close> when it throws (a value that is
  \<^verbatim>\<open>null\<close>).
\<close>

definition registry_record :: "string \<Rightarrow> string \<Rightarrow> json \<Rightarrow> vulnerability" where
  "registry_record nm ver vuln =
     \<lparr> vuln_name = nm,
       version = Val (JStr ver),
       severity = or_else (get_prop vuln ''severity'') (Val (JStr ''moderate'')),
       title = or_else (get_prop vuln ''title'') (Val (JStr ''Unknown vulnerability'')),
       url = or_else (get_prop vuln ''url'')
               (Template ''https://www.npmjs.com/advisories/'' (get_prop vuln ''id'')),
       vulnerable_versions = or_else (get_prop vuln ''vulnerable_versions'') (Val (JStr ''*'')),
       patched_versions = or_else (get_prop vuln ''patched_versions'') (Val (JStr ''No fix available'')),
       advisory = or_else (get_prop vuln ''overview'') (Val (JStr [])) \<rparr>"

fun registry_values :: "string \<Rightarrow> string \<Rightarrow> json list \<Rightarrow> vulnerability list \<Rightarrow> vulnerability list option" where
  "registry_values nm ver [] vulnerabilities = Some vulnerabilities"
| "registry_values nm ver (vuln # rest) vulnerabilities =
     (case vuln of
        JNull \<Rightarrow> None
      | _ \<Rightarrow> registry_values nm ver rest (vulnerabilities @ [registry_record nm ver vuln]))"

definition registry_records :: "string \<Rightarrow> string \<Rightarrow> json \<Rightarrow> vulnerability list option" where
  "registry_records nm ver data =
     (case data of
        JNull \<Rightarrow> None
      | _ \<Rightarrow>
          if truthy_opt (get_prop data ''vulnerabilities'')
          then registry_values nm ver
                 (map snd (object_entries (the (get_prop data ''vulnerabilities'')))) []
          else Some [])"

text \<open>
  \<^verbatim>\<open>getPackageVulnerabilities\<close>: a cached key is answered from the cache; otherwise
  one request is sent. Only a response that is processed to the end is stored in the
  cache; every failure is caught and answered by the empty list.
\<close>

definition getPackageVulnerabilities ::
  "(nat \<Rightarrow> string \<Rightarrow> string \<Rightarrow> response) \<Rightarrow> string \<Rightarrow> string \<Rightarrow> sec_state \<Rightarrow>
   vulnerability list \<times> sec_state" where
  "getPackageVulnerabilities registry nm ver st =
     (case cache st (cacheKey nm ver) of
        Some cached \<Rightarrow> (cached, st)
      | None \<Rightarrow>
          (let st' = st\<lparr> requests := requests st @ [(nm, ver)] \<rparr>
           in case registry (length (requests st)) nm ver of
                Body data \<Rightarrow>
                  (case registry_records nm ver data of
                     None \<Rightarrow> ([], st')
                   | Some vulnerabilities \<Rightarrow>
                       (vulnerabilities,
                        st'\<lparr> cache := (cache st')(cacheKey nm ver \<mapsto> vulnerabilities) \<rparr>))
              | _ \<Rightarrow> ([], st')))"

text \<open>
  For counting: the number of requests sent so far for a cache key, and a sequence of
  calls of \<^verbatim>\<open>getPackageVulnerabilities\<close>, one after the other, on the module state.
\<close>

definition hits :: "string \<Rightarrow> sec_state \<Rightarrow> nat" where
  "hits key st = length (filter (\<lambda>(nm, ver). cacheKey nm ver = key) (requests st))"

fun run_requests ::
  "(nat \<Rightarrow> string \<Rightarrow> string \<Rightarrow> response) \<Rightarrow> (string \<times> string) list \<Rightarrow> sec_state \<Rightarrow> sec_state" where
  "run_requests registry [] st = st"
| "run_requests registry ((nm, ver) # calls) st =
     run_requests registry calls (snd (getPackageVulnerabilities registry nm ver st))"

text \<open>
  \<^verbatim>\<open>checkWithNpmRegistry\<close>: entries that are not strings, local paths and git
  sources are skipped; a manifest that cannot be read or parsed is rethrown as
  \<^verbatim>\<open>Failed to check vulnerabilities\<close>.
\<close>

fun registry_loop ::
  "(nat \<Rightarrow> string \<Rightarrow> string \<Rightarrow> response) \<Rightarrow> obj \<Rightarrow> vulnerability list \<Rightarrow> sec_state \<Rightarrow>
   vulnerability list \<times> sec_state" where
  "registry_loop registry [] vulnerabilities st = (vulnerabilities, st)"
| "registry_loop registry ((nm, v) # es) vulnerabilities st =
     (case v of
        JStr ver \<Rightarrow>
          if startsWith ver ''file:'' \<or> startsWith ver ''git+''
          then registry_loop registry es vulnerabilities st
          else (case getPackageVulnerabilities registry nm ver st of
                  (pkgVulnerabilities, st') \<Rightarrow>
                    registry_loop registry es (vulnerabilities @ pkgVulnerabilities) st')
      | _ \<Rightarrow> registry_loop registry es vulnerabilities st)"

definition checkWithNpmRegistry ::
  "(nat \<Rightarrow> string \<Rightarrow> string \<Rightarrow> response) \<Rightarrow> package_file \<Rightarrow> sec_state \<Rightarrow>
   (exn + vulnerability list) \<times> sec_state" where
  "checkWithNpmRegistry registry file st =
     (case file of
        Parsed pj \<Rightarrow>
          (case registry_loop registry (allDeps pj) [] st of
             (vulnerabilities, st') \<Rightarrow> (Inr vulnerabilities, st'))
      | _ \<Rightarrow> (Inl FailedToCheckVulnerabilities, st))"

text \<open>
  \<^verbatim>\<open>checkVulnerabilities\<close>: \<^verbatim>\<open>npm audit\<close> is run once as a probe by
  \<^verbatim>\<open>hasNpmAudit\<close> and, when the probe exits with status 0, a second time by
  \<^verbatim>\<open>checkWithNpmAudit\<close>; otherwise the registry is asked. The \<^verbatim>\<open>catch\<close> turns
  every error into the empty list.
\<close>

definition checkVulnerabilities_cjs ::
  "(string \<Rightarrow> json option) \<Rightarrow> exec_result \<Rightarrow> exec_result \<Rightarrow>
   (nat \<Rightarrow> string \<Rightarrow> string \<Rightarrow> response) \<Rightarrow> package_file \<Rightarrow> sec_state \<Rightarrow>
   (exn + vulnerability list) \<times> sec_state" where
  "checkVulnerabilities_cjs parse probe run registry file st =
     (case (if hasNpmAudit probe then (checkWithNpmAudit_cjs parse run, st)
            else checkWithNpmRegistry registry file st) of
        (Inl error, st') \<Rightarrow> (Inr [], st')
      | (Inr vulnerabilities, st') \<Rightarrow> (Inr vulnerabilities, st'))"

section \<open>security.js, ES-module variant\<close>

text \<open>
  \<^verbatim>\<open>data.via.length > 0\<close>, \<^verbatim>\<open>data.via[0]\<close> and \<^verbatim>\<open>typeof vuln === 'object'\<close> for
  a truthy value. An object has a length only as an own member; a member that is a
  string, an array or an object would be converted to a number by JavaScript and is read
  as not greater than zero here.
\<close>

fun length_positive :: "json \<Rightarrow> bool" where
  "length_positive (JArr xs) = (xs \<noteq> [])"
| "length_positive (JStr s) = (s \<noteq> [])"
| "length_positive (JObj kvs) =
     (case map_of kvs ''length'' of
        Some (JNum n) \<Rightarrow> 0 < n
      | Some (JBool b) \<Rightarrow> b
      | _ \<Rightarrow> False)"
| "length_positive v = False"

fun first_element :: "json \<Rightarrow> json option" where
  "first_element (JArr xs) = (case xs of [] \<Rightarrow> None | x # rest \<Rightarrow> Some x)"
| "first_element (JStr s) = (case s of [] \<Rightarrow> None | c # rest \<Rightarrow> Some (JStr [c]))"
| "first_element (JObj kvs) = map_of kvs ''0''"
| "first_element v = None"

fun is_object :: "json \<Rightarrow> bool" where
  "is_object (JObj kvs) = True"
| "is_object (JArr xs) = True"
| "is_object v = False"

definition audit_entry_esm :: "string \<Rightarrow> json \<Rightarrow> vulnerability list option" where
  "audit_entry_esm nm data =
     (case data of
        JNull \<Rightarrow> None
      | _ \<Rightarrow>
          if truthy_opt (get_prop data ''via'') \<and> length_positive (the (get_prop data ''via'')) then
            (let vuln = first_element (the (get_prop data ''via''))
             in if truthy_opt vuln \<and> is_object (the vuln) then
                  Some [\<lparr> vuln_name = nm,
                          version = or_else (get_prop data ''version'') (Val (JStr ''unknown'')),
                          severity = or_else (get_prop data ''severity'') (Val (JStr ''moderate'')),
                          title = or_else (get_prop (the vuln) ''title'') (Val (JStr ''Unknown vulnerability'')),
                          url = or_else (get_prop (the vuln) ''url'') (Val (JStr [])),
                          vulnerable_versions = or_else (get_prop data ''range'') (Val (JStr ''*'')),
                          patched_versions =
                            (if truthy_opt (get_prop (the vuln) ''fixedIn'')
                             then Template ''>='' (get_prop (the vuln) ''fixedIn'')
                             else Val (JStr ''No fix available'')),
                          advisory = or_else (get_prop (the vuln) ''advisory'') (Val (JStr [])) \<rparr>]
                else Some [])
          else Some [])"

fun audit_loop_esm :: "obj \<Rightarrow> vulnerability list \<Rightarrow> vulnerability list option" where
  "audit_loop_esm [] vulnerabilities = Some vulnerabilities"
| "audit_loop_esm ((nm, data) # es) vulnerabilities =
     (case audit_entry_esm nm data of
        None \<Rightarrow> None
      | Some rs \<Rightarrow> audit_loop_esm es (vulnerabilities @ rs))"

text \<open>
  What the \<^verbatim>\<open>catch\<close> of \<^verbatim>\<open>checkWithNpmAudit\<close> receives: the error of a failed
  \<^verbatim>\<open>execSync\<close>, or a JavaScript error thrown while parsing or walking the payload
  (it has neither \<^verbatim>\<open>stdout\<close> nor \<^verbatim>\<open>status\<close>).
\<close>

datatype caught = ExecError exec_error | JsError

definition audit_try_esm ::
  "(string \<Rightarrow> json option) \<Rightarrow> exec_result \<Rightarrow> caught + vulnerability list" where
  "audit_try_esm parse run =
     (case run of
        ExecFail e \<Rightarrow> Inl (ExecError e)
      | ExecOk result \<Rightarrow>
          (case parse result of
             None \<Rightarrow> Inl JsError
           | Some JNull \<Rightarrow> Inl JsError
           | Some audit \<Rightarrow>
               if \<not> truthy_opt (get_prop audit ''vulnerabilities'')
                  \<or> object_entries (the (get_prop audit ''vulnerabilities'')) = []
               then Inr []
               else
                 (case audit_loop_esm (object_entries (the (get_prop audit ''vulnerabilities''))) [] of
                    None \<Rightarrow> Inl JsError
                  | Some vulnerabilities \<Rightarrow> Inr vulnerabilities)))"

text \<open>
  The loop of the \<^verbatim>\<open>catch\<close> over the payload attached to the failure: one generic
  record per entry; \<open>None\<close> when it throws (an entry that is \<^verbatim>\<open>null\<close>).
\<close>

definition failure_record :: "string \<Rightarrow> json \<Rightarrow> vulnerability" where
  "failure_record nm data =
     \<lparr> vuln_name = nm,
       version = Val (JStr ''unknown''),
       severity = or_else (get_prop data ''severity'') (Val (JStr ''moderate'')),
       title = Val (JStr ''Security vulnerability detected''),
       url = Val (JStr []),
       vulnerable_versions = or_else (get_prop data ''range'') (Val (JStr ''*'')),
       patched_versions = Val (JStr ''Run npm audit fix''),
       advisory = Val (JStr ''Run npm audit for details'') \<rparr>"

fun failure_loop :: "obj \<Rightarrow> vulnerability list \<Rightarrow> vulnerability list option" where
  "failure_loop [] vulnerabilities = Some vulnerabilities"
| "failure_loop ((nm, data) # es) vulnerabilities =
     (case data of
        JNull \<Rightarrow> None
      | _ \<Rightarrow> failure_loop es (vulnerabilities @ [failure_record nm data]))"

definition parse_failure_output :: "(string \<Rightarrow> json option) \<Rightarrow> exec_error \<Rightarrow> vulnerability list" where
  "parse_failure_output parse e =
     (if stdout e \<noteq> [] then
        (case parse (stdout e) of
           None \<Rightarrow> []
         | Some JNull \<Rightarrow> []
         | Some audit \<Rightarrow>
             if truthy_opt (get_prop audit ''vulnerabilities'') then
               (case failure_loop (object_entries (the (get_prop audit ''vulnerabilities''))) [] of
                  None \<Rightarrow> []
                | Some vulnerabilities \<Rightarrow> vulnerabilities)
             else [])
      else [])"

definition audit_catch_esm :: "(string \<Rightarrow> json option) \<Rightarrow> caught \<Rightarrow> vulnerability list" where
  "audit_catch_esm parse err =
     (case err of
        JsError \<Rightarrow> []
      | ExecError e \<Rightarrow>
          if stdout e \<noteq> [] \<and> str_includes (stdout e) ''found 0 vulnerabilities'' then []
          else if message e \<noteq> [] \<and> str_includes (message e) ''found 0 vulnerabilities'' then []
          else if status e = Some 1 \<and> str_includes (message e) ''npm audit''
               then parse_failure_output parse e
          else [])"

definition checkWithNpmAudit_esm ::
  "(string \<Rightarrow> json option) \<Rightarrow> exec_result \<Rightarrow> exn + vulnerability list" where
  "checkWithNpmAudit_esm parse run =
     (case audit_try_esm parse run of
        Inr vulnerabilities \<Rightarrow> Inr vulnerabilities
      | Inl err \<Rightarrow> Inr (audit_catch_esm parse err))"

definition checkVulnerabilities_esm ::
  "(string \<Rightarrow> json option) \<Rightarrow> exec_result \<Rightarrow> exn + vulnerability list" where
  "checkVulnerabilities_esm parse run =
     (case checkWithNpmAudit_esm parse run of
        Inl error \<Rightarrow> Inr []
      | Inr vulnerabilities \<Rightarrow> Inr vulnerabilities)"

section \<open>An example payload\<close>

text \<open>
  What \<^verbatim>\<open>npm audit --json\<close> may print for one finding that carries no severity, the
  value \<^verbatim>\<open>JSON.parse\<close> gives for that text, and a \<open>parse\<close> that knows this one
  text (any other text is taken as unparseable).
\<close>

definition example_output :: string where
  \<open>example_output =
     ''{"vulnerabilities":{"lodash":{"range":"<4.17.19","via":[{"title":"Prototype Pollution"}]}}}''\<close>

definition example_finding :: json where
  "example_finding =
     JObj [(''range'', JStr ''<4.17.19''),
           (''via'', JArr [JObj [(''title'', JStr ''Prototype Pollution'')]])]"

definition example_report :: json where
  "example_report = JObj [(''vulnerabilities'', JObj [(''lodash'', example_finding)])]"

definition example_parse :: "string \<Rightarrow> json option" where
  "example_parse s = (if s = example_output then Some example_report else None)"

section \<open>Properties of the outdated-set builder\<close>

subsection \<open>The version resolver and one turn of the loop\<close>

lemma maxSatisfying_single:
  "maxSatisfying sv [v] r = (if sv_satisfies sv v r then Some v else None)"
  by (simp add: maxSatisfying_def)

lemma wantedVersion_latest: "wantedVersion sv l c = l"
  by (simp add: wantedVersion_def maxSatisfying_single)

lemma check_entry_record:
  assumes "check_entry sv npm pj nm v = Continue ws rs" and "r \<in> set rs"
  shows "rs = [r] \<and> name r = nm \<and> v = JStr (current r) \<and> npm nm = Some (JStr (latest r))
         \<and> latest r \<noteq> []
         \<and> sv_gt sv (latest r) (cleanVersion (current r)) = Some True
         \<and> wanted r = ''^'' @ latest r \<and> type r = dependency_type pj nm
         \<and> \<not> startsWith (current r) ''file:'' \<and> \<not> startsWith (current r) ''git+''"
  using assms
  by (auto simp: check_entry_def getLatestVersion_def wantedVersion_latest
           split: json.splits if_splits option.splits bool.splits prod.splits)

lemma check_entry_Propagate:
  "check_entry sv npm pj nm v = Propagate \<longleftrightarrow> (\<forall>s. v \<noteq> JStr s)"
  by (auto simp: check_entry_def getLatestVersion_def
           split: json.splits if_splits option.splits bool.splits prod.splits)

lemma check_entry_cong:
  "npm nm = npm' nm \<Longrightarrow> check_entry sv npm pj nm v = check_entry sv npm' pj nm v"
  by (cases v) (simp_all add: check_entry_def getLatestVersion_def)

subsection \<open>The merged object\<close>


lemma keys_set_prop: "fst ` set (set_prop ps k v) = insert k (fst ` set ps)"
  by (induction ps k v rule: set_prop.induct) auto

lemma distinct_set_prop: "distinct (map fst ps) \<Longrightarrow> distinct (map fst (set_prop ps k v))"
proof (induction ps k v rule: set_prop.induct)
  case (1 k v) then show ?case by simp
next
  case (2 k' v' ps k v)
  then show ?case using keys_set_prop[of ps k v] by (auto simp: image_iff)
qed

lemma distinct_spread: "distinct (map fst t) \<Longrightarrow> distinct (map fst (spread t s))"
  unfolding spread_def
  by (induction s arbitrary: t) (auto simp: distinct_set_prop)


lemma distinct_allDeps: "distinct (map fst (allDeps pj))"
  by (simp add: allDeps_def distinct_spread)

lemma allDeps_entry: "(nm, v) \<in> set (allDeps pj) \<Longrightarrow> map_of (allDeps pj) nm = Some v"
  using distinct_allDeps by (rule map_of_is_SomeI)


subsection \<open>The loop\<close>

lemma check_loop_records:
  "check_loop sv npm pj es ws out = (ws', Inr out') \<Longrightarrow> r \<in> set out' \<Longrightarrow>
   r \<in> set out \<or> (\<exists>nm v wsr rs. (nm, v) \<in> set es \<and> check_entry sv npm pj nm v = Continue wsr rs \<and> r \<in> set rs)"
proof (induction es arbitrary: ws out)
  case Nil then show ?case by simp
next
  case (Cons e es)
  obtain nm v where e: "e = (nm, v)" by (cases e)
  show ?case
  proof (cases "check_entry sv npm pj nm v")
    case Propagate
    with Cons.prems e show ?thesis by simp
  next
    case (Continue wsr rs)
    with Cons.prems e have "check_loop sv npm pj es (ws @ wsr) (out @ rs) = (ws', Inr out')" by simp
    from Cons.IH[OF this Cons.prems(2)] Continue e show ?thesis by auto
  qed
qed

lemma check_loop_grows:
  "check_loop sv npm pj es ws out = (ws', Inr out') \<Longrightarrow>
   set ws \<subseteq> set ws' \<and> set out \<subseteq> set out' \<and>
   (\<forall>nm v wsr rs. (nm, v) \<in> set es \<longrightarrow> check_entry sv npm pj nm v = Continue wsr rs \<longrightarrow>
      set wsr \<subseteq> set ws' \<and> set rs \<subseteq> set out')"
proof (induction es arbitrary: ws out)
  case Nil then show ?case by simp
next
  case (Cons e es)
  obtain nm v where e: "e = (nm, v)" by (cases e)
  show ?case
  proof (cases "check_entry sv npm pj nm v")
    case Propagate
    with Cons.prems e show ?thesis by simp
  next
    case (Continue wsr rs)
    with Cons.prems e have "check_loop sv npm pj es (ws @ wsr) (out @ rs) = (ws', Inr out')" by simp
    from Cons.IH[OF this] Continue e show ?thesis by auto
  qed
qed

lemma check_loop_fatal:
  "(\<exists>ws' out'. check_loop sv npm pj es ws out = (ws', Inr out')) \<longleftrightarrow>
   (\<forall>(nm, v) \<in> set es. \<exists>s. v = JStr s)"
proof (induction es arbitrary: ws out)
  case Nil then show ?case by simp
next
  case (Cons e es)
  obtain nm v where e: "e = (nm, v)" by (cases e)
  show ?case
  proof (cases "check_entry sv npm pj nm v")
    case Propagate
    then have "\<forall>s. v \<noteq> JStr s" by (simp add: check_entry_Propagate)
    with Propagate e show ?thesis by auto
  next
    case (Continue wsr rs)
    then have "\<exists>s. v = JStr s" using check_entry_Propagate[of sv npm pj nm v] by auto
    with Continue e Cons.IH[of "ws @ wsr" "out @ rs"] show ?thesis by auto
  qed
qed

lemma check_loop_isolated:
  assumes "npm B = npm' B"
  shows "check_loop sv npm pj es ws out = (w1, Inr o1) \<Longrightarrow>
         check_loop sv npm' pj es ws' out' = (w2, Inr o2) \<Longrightarrow>
         filter (\<lambda>r. name r = B) out = filter (\<lambda>r. name r = B) out' \<Longrightarrow>
         filter (\<lambda>r. name r = B) o1 = filter (\<lambda>r. name r = B) o2"
proof (induction es arbitrary: ws out ws' out')
  case Nil then show ?case by simp
next
  case (Cons e es)
  obtain nm v where e: "e = (nm, v)" by (cases e)
  from Cons.prems(1) e obtain wsr rs where c1: "check_entry sv npm pj nm v = Continue wsr rs"
    by (cases "check_entry sv npm pj nm v") auto
  from Cons.prems(2) e obtain wsr' rs' where c2: "check_entry sv npm' pj nm v = Continue wsr' rs'"
    by (cases "check_entry sv npm' pj nm v") auto
  have "filter (\<lambda>r. name r = B) rs = filter (\<lambda>r. name r = B) rs'"
  proof (cases "nm = B")
    case True
    with assms c1 c2 check_entry_cong[of npm nm npm' sv pj v] show ?thesis by simp
  next
    case False
    have "\<forall>r\<in>set rs. name r \<noteq> B" using check_entry_record[OF c1] False by auto
    moreover have "\<forall>r\<in>set rs'. name r \<noteq> B" using check_entry_record[OF c2] False by auto
    ultimately show ?thesis by (simp add: filter_False)
  qed
  with Cons.prems(3) have f: "filter (\<lambda>r. name r = B) (out @ rs) = filter (\<lambda>r. name r = B) (out' @ rs')"
    by simp
  from Cons.prems(1) e c1 have l1: "check_loop sv npm pj es (ws @ wsr) (out @ rs) = (w1, Inr o1)" by simp
  from Cons.prems(2) e c2 have l2: "check_loop sv npm' pj es (ws' @ wsr') (out' @ rs') = (w2, Inr o2)" by simp
  from Cons.IH[OF l1 l2 f] show ?case .
qed

lemma checkDependencies_Parsed:
  "checkDependencies sv npm pfile = (ws, Inr out) \<Longrightarrow>
   \<exists>pj. pfile = Parsed pj \<and> check_loop sv npm pj (allDeps pj) [] [] = (ws, Inr out)"
  by (cases pfile) (simp_all add: checkDependencies_def)

lemma checkDependencies_record:
  assumes "checkDependencies sv npm pfile = (ws, Inr out)" and "r \<in> set out"
  shows "\<exists>pj wsr. pfile = Parsed pj \<and> (name r, JStr (current r)) \<in> set (allDeps pj)
           \<and> check_entry sv npm pj (name r) (JStr (current r)) = Continue wsr [r]"
proof -
  from checkDependencies_Parsed[OF assms(1)] obtain pj
    where pj: "pfile = Parsed pj" "check_loop sv npm pj (allDeps pj) [] [] = (ws, Inr out)" by blast
  from check_loop_records[OF pj(2) assms(2)] obtain nm v wsr rs
    where e: "(nm, v) \<in> set (allDeps pj)" "check_entry sv npm pj nm v = Continue wsr rs" "r \<in> set rs"
    by auto
  from check_entry_record[OF e(2) e(3)] e pj show ?thesis by auto
qed

subsection \<open>Facts for concrete runs\<close>

lemmas checker_run =
  checkDependencies_def allDeps_def spread_def or_empty_def check_entry_def
  getLatestVersion_def startsWith_def cleanVersion_def range_operator_chars_def
  wantedVersion_def maxSatisfying_def dependency_type_def bucket_has_def
  object_prototype_names_def

lemmas plain_run =
  plain_semver_def plain_gt_def plain_satisfies_def parse_version_def
  numeric_identifier_def is_digit_def digit_value_def range_operator_chars_def

lemma plain_gt_irrefl: "plain_gt v v \<noteq> Some True"
  by (cases "parse_version v") (auto simp: plain_gt_def)

lemma run_caret_minor:
  "checkDependencies plain_semver (\<lambda>n. Some (JStr ''1.3.0''))
     (Parsed \<lparr> dependencies = Some [(''a'', JStr ''^1.2.0'')],
               devDependencies = None, peerDependencies = None \<rparr>)
   = ([], Inr [\<lparr> name = ''a'', current = ''^1.2.0'', latest = ''1.3.0'',
                  wanted = ''^1.3.0'', type = Prod \<rparr>])"
  by (simp add: checker_run plain_run)

lemma checkDependencies_fatal_iff:
  "(\<exists>ws out. checkDependencies sv npm pfile = (ws, Inr out)) \<longleftrightarrow>
   (\<exists>pj. pfile = Parsed pj \<and> (\<forall>(nm, v) \<in> set (allDeps pj). \<exists>s. v = JStr s))"
proof (cases pfile)
  case Missing then show ?thesis by (simp add: checkDependencies_def)
next
  case Unparseable then show ?thesis by (simp add: checkDependencies_def)
next
  case (Parsed pj)
  then show ?thesis
    using check_loop_fatal[of sv npm pj "allDeps pj" "[]" "[]"]
    by (simp add: checkDependencies_def)
qed

lemma check_entry_present:
  assumes "npm B = Some (JStr l)" and "l \<noteq> []"
      and "\<not> startsWith c ''file:''" and "\<not> startsWith c ''git+''"
      and "sv_gt sv l (cleanVersion c) = Some True"
  shows "check_entry sv npm pj B (JStr c) =
           Continue [] [\<lparr> name = B, current = c, latest = l, wanted = ''^'' @ l,
                           type = dependency_type pj B \<rparr>]"
  using assms by (simp add: check_entry_def getLatestVersion_def wantedVersion_latest)

lemma check_entry_absent:
  assumes "npm A = None"
      and "\<not> startsWith c ''file:''" and "\<not> startsWith c ''git+''"
  shows "check_entry sv npm pj A (JStr c) = Continue [CouldNotFetch A] []"
  using assms by (simp add: check_entry_def getLatestVersion_def)

lemma run_one_fails:
  "checkDependencies plain_semver (\<lambda>n. if n = ''b'' then Some (JStr ''2.1.0'') else None)
     (Parsed \<lparr> dependencies = Some [(''a'', JStr ''^1.0.0''), (''b'', JStr ''~2.0.0'')],
               devDependencies = None, peerDependencies = None \<rparr>)
   = ([CouldNotFetch ''a''],
      Inr [\<lparr> name = ''b'', current = ''~2.0.0'', latest = ''2.1.0'',
              wanted = ''^2.1.0'', type = Prod \<rparr>])"
  by (simp add: checker_run plain_run)

lemma run_both_answer:
  "checkDependencies plain_semver
     (\<lambda>n. if n = ''b'' then Some (JStr ''2.1.0'') else Some (JStr ''1.5.0''))
     (Parsed \<lparr> dependencies = Some [(''a'', JStr ''^1.0.0''), (''b'', JStr ''~2.0.0'')],
               devDependencies = None, peerDependencies = None \<rparr>)
   = ([],
      Inr [\<lparr> name = ''a'', current = ''^1.0.0'', latest = ''1.5.0'',
              wanted = ''^1.5.0'', type = Prod \<rparr>,
           \<lparr> name = ''b'', current = ''~2.0.0'', latest = ''2.1.0'',
              wanted = ''^2.1.0'', type = Prod \<rparr>])"
  by (simp add: checker_run plain_run)

lemma check_entry_warning_names:
  "check_entry sv npm pj nm v = Continue wsr rs \<Longrightarrow> w \<in> set wsr \<Longrightarrow>
   w = CouldNotFetch nm \<or> w = CouldNotCheck nm"
  by (auto simp: check_entry_def getLatestVersion_def
           split: json.splits if_splits option.splits bool.splits prod.splits)

lemma check_entry_falsy:
  "npm nm = Some j \<Longrightarrow> \<not> truthy j \<Longrightarrow> check_entry sv npm pj nm v = Continue wsr rs \<Longrightarrow>
   wsr = [] \<and> rs = []"
  by (auto simp: check_entry_def getLatestVersion_def
           split: json.splits if_splits option.splits bool.splits prod.splits)

lemma check_entry_uncomparable:
  assumes "npm A = Some j" and "truthy j"
      and "\<forall>s. j = JStr s \<longrightarrow> sv_gt sv s (cleanVersion a) = None"
      and "\<not> startsWith a ''file:''" and "\<not> startsWith a ''git+''"
  shows "check_entry sv npm pj A (JStr a) = Continue [CouldNotCheck A] []"
  using assms
  by (cases j) (simp_all add: check_entry_def getLatestVersion_def)

lemma check_loop_warnings:
  "check_loop sv npm pj es ws out = (ws', Inr out') \<Longrightarrow> w \<in> set ws' \<Longrightarrow>
   w \<in> set ws \<or> (\<exists>nm v wsr rs. (nm, v) \<in> set es \<and> check_entry sv npm pj nm v = Continue wsr rs \<and> w \<in> set wsr)"
proof (induction es arbitrary: ws out)
  case Nil then show ?case by simp
next
  case (Cons e es)
  obtain nm v where e: "e = (nm, v)" by (cases e)
  show ?case
  proof (cases "check_entry sv npm pj nm v")
    case Propagate
    with Cons.prems e show ?thesis by simp
  next
    case (Continue wsr rs)
    with Cons.prems e have "check_loop sv npm pj es (ws @ wsr) (out @ rs) = (ws', Inr out')" by simp
    from Cons.IH[OF this Cons.prems(2)] Continue e show ?thesis by auto
  qed
qed

lemma run_not_a_version:
  "checkDependencies plain_semver
     (\<lambda>n. if n = ''b'' then Some (JStr ''2.1.0'') else Some (JStr ''latest''))
     (Parsed \<lparr> dependencies = Some [(''a'', JStr ''^1.0.0''), (''b'', JStr ''~2.0.0'')],
               devDependencies = None, peerDependencies = None \<rparr>)
   = ([CouldNotCheck ''a''],
      Inr [\<lparr> name = ''b'', current = ''~2.0.0'', latest = ''2.1.0'',
              wanted = ''^2.1.0'', type = Prod \<rparr>])"
  by (simp add: checker_run plain_run)

lemma run_null_answer:
  "checkDependencies plain_semver
     (\<lambda>n. if n = ''b'' then Some (JStr ''2.1.0'') else Some JNull)
     (Parsed \<lparr> dependencies = Some [(''a'', JStr ''^1.0.0''), (''b'', JStr ''~2.0.0'')],
               devDependencies = None, peerDependencies = None \<rparr>)
   = ([],
      Inr [\<lparr> name = ''b'', current = ''~2.0.0'', latest = ''2.1.0'',
              wanted = ''^2.1.0'', type = Prod \<rparr>])"
  by (simp add: checker_run plain_run)


subsection \<open>The claims about checker.js\<close>

text \<open>
  C9. Every record returned by \<^verbatim>\<open>checkDependencies\<close> has a \<^verbatim>\<open>wanted\<close> field equal
  to \<^verbatim>\<open>"^"\<close> followed by its \<^verbatim>\<open>latest\<close> field: the only candidate handed to
  \<^verbatim>\<open>maxSatisfying\<close> is the latest version, which is also the fallback, and the prefix
  is fixed whatever operator the declared range carries. This holds for every behaviour
  of the semver package and of the registry.
\<close>

theorem C9_wanted_is_caret_latest:
  assumes "checkDependencies sv npm pfile = (ws, Inr out)" and "r \<in> set out"
  shows "wanted r = ''^'' @ latest r"
proof -
  from checkDependencies_record[OF assms] obtain pj wsr
    where "check_entry sv npm pj (name r) (JStr (current r)) = Continue wsr [r]" by blast
  from check_entry_record[OF this] show ?thesis by simp
qed

theorem C9_witness:
  "checkDependencies plain_semver (\<lambda>n. Some (JStr ''1.3.0''))
     (Parsed \<lparr> dependencies = Some [(''a'', JStr ''^1.2.0'')],
               devDependencies = None, peerDependencies = None \<rparr>)
   = ([], Inr [\<lparr> name = ''a'', current = ''^1.2.0'', latest = ''1.3.0'',
                  wanted = ''^1.3.0'', type = Prod \<rparr>])
   \<and> wanted \<lparr> name = ''a'', current = ''^1.2.0'', latest = ''1.3.0'',
               wanted = ''^1.3.0'', type = Prod \<rparr>
       = ''^'' @ latest \<lparr> name = ''a'', current = ''^1.2.0'', latest = ''1.3.0'',
                            wanted = ''^1.3.0'', type = Prod \<rparr>"
  using C9_wanted_is_caret_latest [OF run_caret_minor, of
          "\<lparr> name = ''a'', current = ''^1.2.0'', latest = ''1.3.0'',
             wanted = ''^1.3.0'', type = Prod \<rparr>"]
        run_caret_minor
  by simp

lemma run_all_buckets:
  "checkDependencies plain_semver (\<lambda>n. Some (JStr ''2.0.0''))
     (Parsed \<lparr> dependencies = Some [(''a'', JStr ''^1.0.0'')],
               devDependencies = Some [(''a'', JStr ''^1.1.0'')],
               peerDependencies = Some [(''a'', JStr ''^1.2.0'')] \<rparr>)
   = ([], Inr [\<lparr> name = ''a'', current = ''^1.2.0'', latest = ''2.0.0'',
                  wanted = ''^2.0.0'', type = Dev \<rparr>])"
  by (simp add: checker_run plain_run)


text \<open>
  C1, as amended. The claim says that the wanted version is the bare latest version. The
  version the resolver computes is indeed the latest version for every declared range and
  every latest version, whether or not the latest version satisfies the range; but the
  \<^verbatim>\<open>wanted\<close> field of the record is that version behind the prefix \<^verbatim>\<open>"^"\<close>. For
  the declared range \<^verbatim>\<open>"^1.2.0"\<close> and the latest version \<^verbatim>\<open>"1.3.0"\<close> the record
  carries \<^verbatim>\<open>wanted = "^1.3.0"\<close>.
\<close>

theorem C1_wanted_amended:
  "wantedVersion sv latestVersion declaredRange = latestVersion
   \<and> (check_entry sv npm pj nm (JStr declaredRange) = Continue ws rs \<longrightarrow> r \<in> set rs \<longrightarrow>
        wanted r = ''^'' @ wantedVersion sv (latest r) declaredRange)
   \<and> check_entry plain_semver (\<lambda>n. Some (JStr ''1.3.0'')) pj nm (JStr ''^1.2.0'')
       = Continue [] [\<lparr> name = nm, current = ''^1.2.0'', latest = ''1.3.0'',
                         wanted = ''^1.3.0'', type = dependency_type pj nm \<rparr>]"
proof (intro conjI impI)
  show "wantedVersion sv latestVersion declaredRange = latestVersion"
    by (rule wantedVersion_latest)
next
  assume "check_entry sv npm pj nm (JStr declaredRange) = Continue ws rs" and "r \<in> set rs"
  from check_entry_record[OF this] show "wanted r = ''^'' @ wantedVersion sv (latest r) declaredRange"
    by (simp add: wantedVersion_latest)
next
  show "check_entry plain_semver (\<lambda>n. Some (JStr ''1.3.0'')) pj nm (JStr ''^1.2.0'')
       = Continue [] [\<lparr> name = nm, current = ''^1.2.0'', latest = ''1.3.0'',
                         wanted = ''^1.3.0'', type = dependency_type pj nm \<rparr>]"
    by (simp add: check_entry_def getLatestVersion_def startsWith_def cleanVersion_def
                  wantedVersion_latest plain_run)
qed

theorem C1_witness:
  "wantedVersion plain_semver ''2.0.0'' ''^1.2.0'' = ''2.0.0''
   \<and> check_entry plain_semver (\<lambda>n. Some (JStr ''1.3.0''))
         \<lparr> dependencies = None, devDependencies = None, peerDependencies = None \<rparr>
         ''a'' (JStr ''^1.2.0'')
       = Continue [] [\<lparr> name = ''a'', current = ''^1.2.0'', latest = ''1.3.0'',
                         wanted = ''^1.3.0'', type = Prod \<rparr>]
   \<and> wanted \<lparr> name = ''a'', current = ''^1.2.0'', latest = ''1.3.0'',
                wanted = ''^1.3.0'', type = Prod \<rparr>
       = ''^'' @ wantedVersion plain_semver ''1.3.0'' ''^1.2.0''"
proof -
  let ?pj = "\<lparr> dependencies = None, devDependencies = None, peerDependencies = None \<rparr>"
  let ?r = "\<lparr> name = ''a'', current = ''^1.2.0'', latest = ''1.3.0'',
               wanted = ''^1.3.0'', type = Prod \<rparr>"
  note t = C1_wanted_amended [of plain_semver "''2.0.0''" "''^1.2.0''" "\<lambda>n. Some (JStr ''1.3.0'')"
             ?pj "''a''" "[]" "[?r]" ?r]
  have ty: "dependency_type ?pj ''a'' = Prod"
    by (simp add: dependency_type_def bucket_has_def)
  from t ty show ?thesis
    using C1_wanted_amended [of plain_semver "''1.3.0''" "''^1.2.0''"] by simp
qed

text \<open>
  The claim C1 as stated fails: for the declared range \<^verbatim>\<open>"^1.2.0"\<close> and the latest
  version \<^verbatim>\<open>"1.3.0"\<close> the \<^verbatim>\<open>wanted\<close> field is \<^verbatim>\<open>"^1.3.0"\<close>, not \<^verbatim>\<open>"1.3.0"\<close>.
\<close>

theorem C1_counterexample:
  "snd (checkDependencies plain_semver (\<lambda>n. Some (JStr ''1.3.0''))
          (Parsed \<lparr> dependencies = Some [(''a'', JStr ''^1.2.0'')],
                    devDependencies = None, peerDependencies = None \<rparr>))
     = Inr [\<lparr> name = ''a'', current = ''^1.2.0'', latest = ''1.3.0'',
               wanted = ''^1.3.0'', type = Prod \<rparr>]
   \<and> ''^1.3.0'' \<noteq> ''1.3.0''"
  by (simp add: checker_run plain_run)

text \<open>
  C2, as amended. The type of a record follows the precedence development, then peer,
  then production: it is \<^verbatim>\<open>dev\<close> when \<^verbatim>\<open>devDependencies\<close> holds the name with a
  truthy value (a non-empty range), else \<^verbatim>\<open>peer\<close> when \<^verbatim>\<open>peerDependencies\<close> does,
  and \<^verbatim>\<open>prod\<close> only when neither does. (A name that every object inherits, such as
  \<^verbatim>\<open>constructor\<close>, is found in any bucket that exists; the statement leaves such
  names aside.)
\<close>

theorem C2_type_amended:
  assumes "checkDependencies sv npm pfile = (ws, Inr out)" and "r \<in> set out"
      and "pfile = Parsed pj"
      and "name r \<notin> set object_prototype_names"
  shows "type r =
           (if truthy_opt (map_of (or_empty (devDependencies pj)) (name r)) then Dev
            else if truthy_opt (map_of (or_empty (peerDependencies pj)) (name r)) then Peer
            else Prod)"
proof -
  from checkDependencies_record[OF assms(1,2)] assms(3) obtain wsr
    where "check_entry sv npm pj (name r) (JStr (current r)) = Continue wsr [r]" by auto
  from check_entry_record[OF this] have "type r = dependency_type pj (name r)" by simp
  with assms(4) show ?thesis
    by (auto simp: dependency_type_def bucket_has_def truthy_opt_def or_empty_def
             split: option.splits)
qed

theorem C2_witness:
  "checkDependencies plain_semver (\<lambda>n. Some (JStr ''2.0.0''))
     (Parsed \<lparr> dependencies = Some [(''a'', JStr ''^1.0.0'')],
               devDependencies = Some [(''a'', JStr ''^1.1.0'')],
               peerDependencies = Some [(''a'', JStr ''^1.2.0'')] \<rparr>)
   = ([], Inr [\<lparr> name = ''a'', current = ''^1.2.0'', latest = ''2.0.0'',
                  wanted = ''^2.0.0'', type = Dev \<rparr>])
   \<and> ''a'' \<notin> set object_prototype_names
   \<and> type \<lparr> name = ''a'', current = ''^1.2.0'', latest = ''2.0.0'',
              wanted = ''^2.0.0'', type = Dev \<rparr> = Dev"
proof -
  have np: "''a'' \<notin> set object_prototype_names" by (simp add: object_prototype_names_def)
  from C2_type_amended [OF run_all_buckets _ refl, of
        "\<lparr> name = ''a'', current = ''^1.2.0'', latest = ''2.0.0'',
           wanted = ''^2.0.0'', type = Dev \<rparr>"] np run_all_buckets
  show ?thesis by simp
qed

text \<open>
  The claim C2 as stated fails: a package listed under \<^verbatim>\<open>dependencies\<close> and under
  \<^verbatim>\<open>devDependencies\<close> is reported with the type \<^verbatim>\<open>dev\<close>, not \<^verbatim>\<open>prod\<close>.
\<close>

theorem C2_counterexample:
  "snd (checkDependencies plain_semver (\<lambda>n. Some (JStr ''2.0.0''))
          (Parsed \<lparr> dependencies = Some [(''a'', JStr ''^1.0.0'')],
                    devDependencies = Some [(''a'', JStr ''^1.0.0'')],
                    peerDependencies = None \<rparr>))
     = Inr [\<lparr> name = ''a'', current = ''^1.0.0'', latest = ''2.0.0'',
               wanted = ''^2.0.0'', type = Dev \<rparr>]
   \<and> Dev \<noteq> Prod"
  by (simp add: checker_run plain_run)

text \<open>
  C3. A record is in the output only if the manifest is readable, the merged object holds
  the record's name with the record's declared range, the registry answered with the
  record's latest version, and \<^verbatim>\<open>semver.gt\<close> found that version strictly greater than
  the declared range stripped of its leading operator characters. With an irreflexive
  \<^verbatim>\<open>semver.gt\<close> the latest version of a record therefore never equals that bare
  version; for the declared range \<^verbatim>\<open>"^1.2.0"\<close> and the latest version \<^verbatim>\<open>"1.2.0"\<close>
  the output is empty.
\<close>

theorem C3_only_if_strictly_greater:
  "(checkDependencies sv npm pfile = (ws, Inr out) \<longrightarrow> r \<in> set out \<longrightarrow>
      (\<exists>pj. pfile = Parsed pj
         \<and> map_of (allDeps pj) (name r) = Some (JStr (current r))
         \<and> npm (name r) = Some (JStr (latest r))
         \<and> sv_gt sv (latest r) (cleanVersion (current r)) = Some True
         \<and> ((\<forall>v. sv_gt sv v v \<noteq> Some True) \<longrightarrow> latest r \<noteq> cleanVersion (current r))))
   \<and> checkDependencies plain_semver (\<lambda>n. Some (JStr ''1.2.0''))
         (Parsed \<lparr> dependencies = Some [(nm, JStr ''^1.2.0'')],
                   devDependencies = None, peerDependencies = None \<rparr>)
       = ([], Inr [])"
proof (intro conjI impI)
  assume run: "checkDependencies sv npm pfile = (ws, Inr out)" and r: "r \<in> set out"
  from checkDependencies_record[OF run r] obtain pj wsr
    where pj: "pfile = Parsed pj" "(name r, JStr (current r)) \<in> set (allDeps pj)"
      and e: "check_entry sv npm pj (name r) (JStr (current r)) = Continue wsr [r]" by blast
  from check_entry_record[OF e]
  have g: "npm (name r) = Some (JStr (latest r))"
          "sv_gt sv (latest r) (cleanVersion (current r)) = Some True" by simp_all
  have "(\<forall>v. sv_gt sv v v \<noteq> Some True) \<longrightarrow> latest r \<noteq> cleanVersion (current r)"
    using g(2) by metis
  with pj allDeps_entry[OF pj(2)] g
  show "\<exists>pj. pfile = Parsed pj
         \<and> map_of (allDeps pj) (name r) = Some (JStr (current r))
         \<and> npm (name r) = Some (JStr (latest r))
         \<and> sv_gt sv (latest r) (cleanVersion (current r)) = Some True
         \<and> ((\<forall>v. sv_gt sv v v \<noteq> Some True) \<longrightarrow> latest r \<noteq> cleanVersion (current r))"
    by blast
next
  show "checkDependencies plain_semver (\<lambda>n. Some (JStr ''1.2.0''))
         (Parsed \<lparr> dependencies = Some [(nm, JStr ''^1.2.0'')],
                   devDependencies = None, peerDependencies = None \<rparr>)
       = ([], Inr [])"
    by (simp add: checker_run plain_run)
qed

theorem C3_witness:
  "checkDependencies plain_semver (\<lambda>n. Some (JStr ''1.3.0''))
     (Parsed \<lparr> dependencies = Some [(''a'', JStr ''^1.2.0'')],
               devDependencies = None, peerDependencies = None \<rparr>)
   = ([], Inr [\<lparr> name = ''a'', current = ''^1.2.0'', latest = ''1.3.0'',
                  wanted = ''^1.3.0'', type = Prod \<rparr>])
   \<and> (\<forall>v. sv_gt plain_semver v v \<noteq> Some True)
   \<and> sv_gt plain_semver ''1.3.0'' (cleanVersion ''^1.2.0'') = Some True
   \<and> ''1.3.0'' \<noteq> cleanVersion ''^1.2.0''
   \<and> checkDependencies plain_semver (\<lambda>n. Some (JStr ''1.2.0''))
         (Parsed \<lparr> dependencies = Some [(''a'', JStr ''^1.2.0'')],
                   devDependencies = None, peerDependencies = None \<rparr>)
       = ([], Inr [])"
proof -
  have irr: "\<forall>v. sv_gt plain_semver v v \<noteq> Some True"
    by (simp add: plain_semver_def plain_gt_irrefl)
  from C3_only_if_strictly_greater [of plain_semver "\<lambda>n. Some (JStr ''1.3.0'')"
         "Parsed \<lparr> dependencies = Some [(''a'', JStr ''^1.2.0'')],
                   devDependencies = None, peerDependencies = None \<rparr>"
         "[]" "[\<lparr> name = ''a'', current = ''^1.2.0'', latest = ''1.3.0'',
                  wanted = ''^1.3.0'', type = Prod \<rparr>]"
         "\<lparr> name = ''a'', current = ''^1.2.0'', latest = ''1.3.0'',
                  wanted = ''^1.3.0'', type = Prod \<rparr>" "''a''"]
       run_caret_minor irr
  show ?thesis by simp
qed



text \<open>
  C5, as amended. Failures of the registry query are isolated per package. In a run over
  a readable manifest that ends normally:
  \<^item> if the query for \<open>A\<close> throws (non-zero exit, timeout, unparseable output), no record
    names \<open>A\<close> and, when \<open>A\<close> is a registry dependency, the warning \<open>CouldNotFetch A\<close>
    is recorded;
  \<^item> if the query for \<open>A\<close> answers with a truthy value that \<^verbatim>\<open>semver.gt\<close> cannot
    compare (not a string, or a string for which it throws), no record names \<open>A\<close> and
    the warning \<open>CouldNotCheck A\<close> is recorded;
  \<^item> if the query for \<open>A\<close> answers with a falsy value (\<^verbatim>\<open>null\<close>, the empty string,
    zero, \<^verbatim>\<open>false\<close>), no record names \<open>A\<close> and no warning names \<open>A\<close>;
  \<^item> the record of every package \<open>B\<close> whose query succeeds with a strictly greater
    version is in the output;
  \<^item> the run ends normally for every other behaviour of the registry as well, so no
    answer of the registry aborts it;
  \<^item> the records that name \<open>B\<close> are the same under every registry that gives the same
    answer for \<open>B\<close>, whatever it answers for the other packages.
\<close>

theorem C5_failure_isolation:
  assumes run: "checkDependencies sv npm (Parsed pj) = (ws, Inr out)"
  shows "(npm A = None \<longrightarrow>
            (\<forall>r \<in> set out. name r \<noteq> A)
            \<and> (map_of (allDeps pj) A = Some (JStr a) \<longrightarrow>
                 \<not> startsWith a ''file:'' \<longrightarrow> \<not> startsWith a ''git+'' \<longrightarrow>
                 CouldNotFetch A \<in> set ws))
       \<and> (npm A = Some j \<longrightarrow> truthy j \<longrightarrow>
            map_of (allDeps pj) A = Some (JStr a) \<longrightarrow>
            \<not> startsWith a ''file:'' \<longrightarrow> \<not> startsWith a ''git+'' \<longrightarrow>
            (\<forall>s. j = JStr s \<longrightarrow> sv_gt sv s (cleanVersion a) = None) \<longrightarrow>
              (\<forall>r \<in> set out. name r \<noteq> A) \<and> CouldNotCheck A \<in> set ws)
       \<and> (npm A = Some j \<longrightarrow> \<not> truthy j \<longrightarrow>
            (\<forall>r \<in> set out. name r \<noteq> A)
            \<and> CouldNotFetch A \<notin> set ws \<and> CouldNotCheck A \<notin> set ws)
       \<and> (map_of (allDeps pj) B = Some (JStr c) \<longrightarrow> npm B = Some (JStr l) \<longrightarrow> l \<noteq> [] \<longrightarrow>
            \<not> startsWith c ''file:'' \<longrightarrow> \<not> startsWith c ''git+'' \<longrightarrow>
            sv_gt sv l (cleanVersion c) = Some True \<longrightarrow>
            \<lparr> name = B, current = c, latest = l, wanted = ''^'' @ l,
              type = dependency_type pj B \<rparr> \<in> set out)
       \<and> (\<exists>ws' out'. checkDependencies sv npm' (Parsed pj) = (ws', Inr out'))
       \<and> (npm' B = npm B \<longrightarrow> checkDependencies sv npm' (Parsed pj) = (ws2, Inr out2) \<longrightarrow>
            filter (\<lambda>r. name r = B) out2 = filter (\<lambda>r. name r = B) out)"
proof -
  from run have loop: "check_loop sv npm pj (allDeps pj) [] [] = (ws, Inr out)"
    by (simp add: checkDependencies_def)
  have rec: "map_of (allDeps pj) (name x) = Some (JStr (current x))
             \<and> npm (name x) = Some (JStr (latest x)) \<and> latest x \<noteq> []
             \<and> sv_gt sv (latest x) (cleanVersion (current x)) = Some True"
    if x: "x \<in> set out" for x
  proof -
    from checkDependencies_record[OF run x] obtain pj' wsr
      where pj': "Parsed pj = Parsed pj'"
        and m: "(name x, JStr (current x)) \<in> set (allDeps pj')"
        and e: "check_entry sv npm pj' (name x) (JStr (current x)) = Continue wsr [x]" by blast
    from pj' have "pj' = pj" by simp
    with allDeps_entry[OF m] check_entry_record[OF e, of x] show ?thesis by simp
  qed
  have thrown: "(\<forall>r \<in> set out. name r \<noteq> A)
            \<and> (map_of (allDeps pj) A = Some (JStr a) \<longrightarrow>
                 \<not> startsWith a ''file:'' \<longrightarrow> \<not> startsWith a ''git+'' \<longrightarrow>
                 CouldNotFetch A \<in> set ws)" if fails: "npm A = None"
  proof (intro conjI impI ballI)
    fix r assume "r \<in> set out"
    from rec[OF this] fails show "name r \<noteq> A" by auto
  next
    assume m: "map_of (allDeps pj) A = Some (JStr a)"
       and s: "\<not> startsWith a ''file:''" "\<not> startsWith a ''git+''"
    from m have mem: "(A, JStr a) \<in> set (allDeps pj)" by (rule map_of_SomeD)
    from fails s have "check_entry sv npm pj A (JStr a) = Continue [CouldNotFetch A] []"
      by (rule check_entry_absent[of npm A a sv pj])
    with check_loop_grows[OF loop] mem show "CouldNotFetch A \<in> set ws" by fastforce
  qed
  have uncomparable: "(\<forall>r \<in> set out. name r \<noteq> A) \<and> CouldNotCheck A \<in> set ws"
    if j: "npm A = Some j" "truthy j"
    and m: "map_of (allDeps pj) A = Some (JStr a)"
    and s: "\<not> startsWith a ''file:''" "\<not> startsWith a ''git+''"
    and g: "\<forall>s. j = JStr s \<longrightarrow> sv_gt sv s (cleanVersion a) = None"
  proof (intro conjI ballI)
    fix r assume r: "r \<in> set out"
    show "name r \<noteq> A"
    proof
      assume eq: "name r = A"
      from rec[OF r] eq m j have "current r = a" "j = JStr (latest r)"
        "sv_gt sv (latest r) (cleanVersion (current r)) = Some True" by simp_all
      with g show False by simp
    qed
  next
    from m have mem: "(A, JStr a) \<in> set (allDeps pj)" by (rule map_of_SomeD)
    from j g s have "check_entry sv npm pj A (JStr a) = Continue [CouldNotCheck A] []"
      by (rule check_entry_uncomparable[of npm A j sv a pj])
    with check_loop_grows[OF loop] mem show "CouldNotCheck A \<in> set ws" by fastforce
  qed
  have silent: "(\<forall>r \<in> set out. name r \<noteq> A)
            \<and> CouldNotFetch A \<notin> set ws \<and> CouldNotCheck A \<notin> set ws"
    if j: "npm A = Some j" "\<not> truthy j"
  proof -
    have no_rec: "\<forall>r \<in> set out. name r \<noteq> A"
    proof
      fix r assume r: "r \<in> set out"
      show "name r \<noteq> A"
      proof
        assume eq: "name r = A"
        from rec[OF r] eq j have "j = JStr (latest r)" "latest r \<noteq> []" by simp_all
        with j(2) show False by simp
      qed
    qed
    have no_warn: "w \<noteq> CouldNotFetch A \<and> w \<noteq> CouldNotCheck A" if w: "w \<in> set ws" for w
    proof -
      from check_loop_warnings[OF loop w] obtain nm v wsr rs
        where e: "check_entry sv npm pj nm v = Continue wsr rs" and ww: "w \<in> set wsr" by auto
      from check_entry_warning_names[OF e ww] have nmw: "w = CouldNotFetch nm \<or> w = CouldNotCheck nm" .
      show ?thesis
      proof (cases "nm = A")
        case True
        with check_entry_falsy[of npm A j sv pj v wsr rs] j e have "wsr = []" by simp
        with ww show ?thesis by simp
      next
        case False
        with nmw show ?thesis by auto
      qed
    qed
    from no_rec no_warn show ?thesis by blast
  qed
  have present: "\<lparr> name = B, current = c, latest = l, wanted = ''^'' @ l,
              type = dependency_type pj B \<rparr> \<in> set out"
    if m: "map_of (allDeps pj) B = Some (JStr c)"
    and ok: "npm B = Some (JStr l)" "l \<noteq> []" "\<not> startsWith c ''file:''"
            "\<not> startsWith c ''git+''" "sv_gt sv l (cleanVersion c) = Some True"
  proof -
    from m have mem: "(B, JStr c) \<in> set (allDeps pj)" by (rule map_of_SomeD)
    from ok have "check_entry sv npm pj B (JStr c) =
           Continue [] [\<lparr> name = B, current = c, latest = l, wanted = ''^'' @ l,
                           type = dependency_type pj B \<rparr>]"
      by (rule check_entry_present[of npm B l c sv pj])
    with check_loop_grows[OF loop] mem show ?thesis by fastforce
  qed
  from run have "\<exists>ws out. checkDependencies sv npm (Parsed pj) = (ws, Inr out)" by blast
  then have total: "\<exists>ws' out'. checkDependencies sv npm' (Parsed pj) = (ws', Inr out')"
    by (simp only: checkDependencies_fatal_iff)
  have isolated: "filter (\<lambda>r. name r = B) out2 = filter (\<lambda>r. name r = B) out"
    if same: "npm' B = npm B" and r2: "checkDependencies sv npm' (Parsed pj) = (ws2, Inr out2)"
  proof -
    from r2 have loop2: "check_loop sv npm' pj (allDeps pj) [] [] = (ws2, Inr out2)"
      by (simp add: checkDependencies_def)
    from check_loop_isolated[OF same loop2 loop] show ?thesis by simp
  qed
  from thrown uncomparable silent present total isolated show ?thesis by blast
qed

theorem C5_witness:
  "checkDependencies plain_semver (\<lambda>n. if n = ''b'' then Some (JStr ''2.1.0'') else None)
       (Parsed \<lparr> dependencies = Some [(''a'', JStr ''^1.0.0''), (''b'', JStr ''~2.0.0'')],
                 devDependencies = None, peerDependencies = None \<rparr>)
     = ([CouldNotFetch ''a''],
        Inr [\<lparr> name = ''b'', current = ''~2.0.0'', latest = ''2.1.0'',
                wanted = ''^2.1.0'', type = Prod \<rparr>])
   \<and> CouldNotFetch ''a'' \<in> set [CouldNotFetch ''a'']
   \<and> \<lparr> name = ''b'', current = ''~2.0.0'', latest = ''2.1.0'', wanted = ''^2.1.0'', type = Prod \<rparr>
       \<in> set [\<lparr> name = ''b'', current = ''~2.0.0'', latest = ''2.1.0'',
                  wanted = ''^2.1.0'', type = Prod \<rparr>]
   \<and> (\<exists>ws' out'. checkDependencies plain_semver
         (\<lambda>n. if n = ''b'' then Some (JStr ''2.1.0'') else Some (JStr ''1.5.0''))
         (Parsed \<lparr> dependencies = Some [(''a'', JStr ''^1.0.0''), (''b'', JStr ''~2.0.0'')],
                   devDependencies = None, peerDependencies = None \<rparr>) = (ws', Inr out'))
   \<and> filter (\<lambda>r. name r = ''b'')
        [\<lparr> name = ''a'', current = ''^1.0.0'', latest = ''1.5.0'',
            wanted = ''^1.5.0'', type = Prod \<rparr>,
         \<lparr> name = ''b'', current = ''~2.0.0'', latest = ''2.1.0'',
            wanted = ''^2.1.0'', type = Prod \<rparr>]
      = filter (\<lambda>r. name r = ''b'')
        [\<lparr> name = ''b'', current = ''~2.0.0'', latest = ''2.1.0'',
            wanted = ''^2.1.0'', type = Prod \<rparr>]
   \<and> checkDependencies plain_semver
         (\<lambda>n. if n = ''b'' then Some (JStr ''2.1.0'') else Some (JStr ''latest''))
         (Parsed \<lparr> dependencies = Some [(''a'', JStr ''^1.0.0''), (''b'', JStr ''~2.0.0'')],
                   devDependencies = None, peerDependencies = None \<rparr>)
     = ([CouldNotCheck ''a''],
        Inr [\<lparr> name = ''b'', current = ''~2.0.0'', latest = ''2.1.0'',
                wanted = ''^2.1.0'', type = Prod \<rparr>])
   \<and> truthy (JStr ''latest'')
   \<and> sv_gt plain_semver ''latest'' (cleanVersion ''^1.0.0'') = None
   \<and> CouldNotCheck ''a'' \<in> set [CouldNotCheck ''a'']
   \<and> checkDependencies plain_semver
         (\<lambda>n. if n = ''b'' then Some (JStr ''2.1.0'') else Some JNull)
         (Parsed \<lparr> dependencies = Some [(''a'', JStr ''^1.0.0''), (''b'', JStr ''~2.0.0'')],
                   devDependencies = None, peerDependencies = None \<rparr>)
     = ([],
        Inr [\<lparr> name = ''b'', current = ''~2.0.0'', latest = ''2.1.0'',
                wanted = ''^2.1.0'', type = Prod \<rparr>])
   \<and> \<not> truthy JNull
   \<and> CouldNotFetch ''a'' \<notin> set ([] :: warning list)
   \<and> CouldNotCheck ''a'' \<notin> set ([] :: warning list)"
proof -
  let ?pj = "\<lparr> dependencies = Some [(''a'', JStr ''^1.0.0''), (''b'', JStr ''~2.0.0'')],
                devDependencies = None, peerDependencies = None \<rparr>"
  let ?rb = "\<lparr> name = ''b'', current = ''~2.0.0'', latest = ''2.1.0'',
                wanted = ''^2.1.0'', type = Prod \<rparr>"
  let ?ra = "\<lparr> name = ''a'', current = ''^1.0.0'', latest = ''1.5.0'',
                wanted = ''^1.5.0'', type = Prod \<rparr>"
  have g: "sv_gt plain_semver ''latest'' (cleanVersion ''^1.0.0'') = None"
    by (simp add: cleanVersion_def plain_run)
  have m: "map_of (allDeps ?pj) ''a'' = Some (JStr ''^1.0.0'')"
    by (simp add: allDeps_def spread_def or_empty_def)
  have mb: "map_of (allDeps ?pj) ''b'' = Some (JStr ''~2.0.0'')"
    by (simp add: allDeps_def spread_def or_empty_def)
  have gb: "sv_gt plain_semver ''2.1.0'' (cleanVersion ''~2.0.0'') = Some True"
    by (simp add: cleanVersion_def plain_run)
  have ty: "dependency_type ?pj ''b'' = Prod"
    by (simp add: dependency_type_def bucket_has_def)
  note t1 = C5_failure_isolation [OF run_one_fails, where A = "''a''" and a = "''^1.0.0''"
              and B = "''b''" and c = "''~2.0.0''" and l = "''2.1.0''"
              and npm' = "\<lambda>n. if n = ''b'' then Some (JStr ''2.1.0'') else Some (JStr ''1.5.0'')"
              and ?ws2.0 = "[]" and ?out2.0 = "[?ra, ?rb]"]
  note t2 = C5_failure_isolation [OF run_not_a_version, where A = "''a''" and a = "''^1.0.0''"
              and j = "JStr ''latest''"]
  note t3 = C5_failure_isolation [OF run_null_answer, where A = "''a''" and j = JNull]
  from t1 m mb gb ty run_both_answer
  have T1: "CouldNotFetch ''a'' \<in> set [CouldNotFetch ''a''] \<and> ?rb \<in> set [?rb]
     \<and> (\<exists>ws' out'. checkDependencies plain_semver
         (\<lambda>n. if n = ''b'' then Some (JStr ''2.1.0'') else Some (JStr ''1.5.0''))
         (Parsed ?pj) = (ws', Inr out'))
     \<and> filter (\<lambda>r. name r = ''b'') [?ra, ?rb] = filter (\<lambda>r. name r = ''b'') [?rb]"
    by (simp add: startsWith_def)
  from t2 m g
  have T2: "CouldNotCheck ''a'' \<in> set [CouldNotCheck ''a'']"
    by (simp add: startsWith_def)
  from t3
  have T3: "CouldNotFetch ''a'' \<notin> set ([] :: warning list)
            \<and> CouldNotCheck ''a'' \<notin> set ([] :: warning list)"
    by simp
  from T1 T2 T3 g run_one_fails run_not_a_version run_null_answer
  show ?thesis by simp
qed

text \<open>
  The claim C5 as stated fails: when the query for a package answers \<^verbatim>\<open>null\<close>, the
  package is omitted and no warning is recorded.
\<close>

theorem C5_counterexample:
  "checkDependencies plain_semver
     (\<lambda>n. if n = ''b'' then Some (JStr ''2.1.0'') else Some JNull)
     (Parsed \<lparr> dependencies = Some [(''a'', JStr ''^1.0.0''), (''b'', JStr ''~2.0.0'')],
               devDependencies = None, peerDependencies = None \<rparr>)
   = ([],
      Inr [\<lparr> name = ''b'', current = ''~2.0.0'', latest = ''2.1.0'',
              wanted = ''^2.1.0'', type = Prod \<rparr>])"
  by (simp add: checker_run plain_run)

section \<open>Properties of the vulnerability check\<close>

subsection \<open>The cache\<close>

lemma gpv_cached:
  "cache st (cacheKey nm ver) = Some vs \<Longrightarrow> getPackageVulnerabilities registry nm ver st = (vs, st)"
  by (simp add: getPackageVulnerabilities_def)

lemma gpv_cache_mono:
  "cache st k = Some x \<Longrightarrow> cache (snd (getPackageVulnerabilities registry nm ver st)) k = Some x"
  by (auto simp: getPackageVulnerabilities_def Let_def split: option.splits response.splits)

lemma gpv_hits_cached:
  "cache st k = Some x \<Longrightarrow> hits k (snd (getPackageVulnerabilities registry nm ver st)) = hits k st"
  by (auto simp: getPackageVulnerabilities_def Let_def hits_def split: option.splits response.splits)

lemma gpv_hits_le:
  "hits k (snd (getPackageVulnerabilities registry nm ver st)) \<le> hits k st + 1"
  by (auto simp: getPackageVulnerabilities_def Let_def hits_def split: option.splits response.splits)

lemma gpv_not_failed:
  assumes "getPackageVulnerabilities registry nm ver st = (vs, st1)"
      and "cache st (cacheKey nm ver) \<noteq> None
           \<or> (\<exists>data. registry (length (requests st)) nm ver = Body data
                      \<and> registry_records nm ver data \<noteq> None)"
  shows "cache st1 (cacheKey nm ver) = Some vs"
  using assms
  by (auto simp: getPackageVulnerabilities_def Let_def split: option.splits response.splits)

lemma run_requests_cached:
  "cache st k = Some x \<Longrightarrow>
   cache (run_requests registry calls st) k = Some x \<and> hits k (run_requests registry calls st) = hits k st"
proof (induction calls arbitrary: st)
  case Nil then show ?case by simp
next
  case (Cons c calls)
  obtain nm ver where c: "c = (nm, ver)" by (cases c)
  let ?st = "snd (getPackageVulnerabilities registry nm ver st)"
  from Cons.prems have a: "cache ?st k = Some x" by (rule gpv_cache_mono)
  from Cons.prems have b: "hits k ?st = hits k st" by (rule gpv_hits_cached)
  from Cons.IH[OF a] b c show ?case by simp
qed

lemma gpv_failed:
  assumes "cache st (cacheKey nm ver) = None"
      and "\<forall>data. registry (length (requests st)) nm ver = Body data \<longrightarrow>
                  registry_records nm ver data = None"
  shows "getPackageVulnerabilities registry nm ver st
         = ([], st\<lparr> requests := requests st @ [(nm, ver)] \<rparr>)"
  using assms
  by (cases "registry (length (requests st)) nm ver")
     (simp_all add: getPackageVulnerabilities_def Let_def)

lemma gpv_uncached_hits:
  "cache st (cacheKey nm ver) = None \<Longrightarrow>
   requests (snd (getPackageVulnerabilities registry nm ver st)) = requests st @ [(nm, ver)]"
  by (cases "registry (length (requests st)) nm ver")
     (simp_all add: getPackageVulnerabilities_def Let_def split: option.splits)

lemma gpv_all_fail:
  assumes "\<forall>k n v d. registry k n v \<noteq> Body d" and "cache st = Map.empty"
  shows "fst (getPackageVulnerabilities registry nm ver st) = []
         \<and> cache (snd (getPackageVulnerabilities registry nm ver st)) = Map.empty"
  using assms
  by (cases "registry (length (requests st)) nm ver")
     (simp_all add: getPackageVulnerabilities_def Let_def)

lemma registry_loop_all_fail:
  assumes "\<forall>k n v d. registry k n v \<noteq> Body d"
  shows "cache st = Map.empty \<Longrightarrow> fst (registry_loop registry es vs st) = vs"
proof (induction es arbitrary: vs st)
  case Nil then show ?case by simp
next
  case (Cons e es)
  obtain nm v where e: "e = (nm, v)" by (cases e)
  show ?case
  proof (cases v)
    case (JStr ver)
    from gpv_all_fail[OF assms Cons.prems, of nm ver]
    obtain st' where g: "getPackageVulnerabilities registry nm ver st = ([], st')"
                 and c: "cache st' = Map.empty"
      by (cases "getPackageVulnerabilities registry nm ver st") auto
    from Cons.IH[OF Cons.prems] Cons.IH[OF c] e JStr g show ?thesis by simp
  qed (use Cons.IH[OF Cons.prems] e in simp_all)
qed


subsection \<open>The catch-all and the failure output\<close>

lemma checkVulnerabilities_cjs_Inr:
  "\<exists>vs. fst (checkVulnerabilities_cjs parse probe run registry pfile st) = Inr vs"
proof (cases "if hasNpmAudit probe then (checkWithNpmAudit_cjs parse run, st)
              else checkWithNpmRegistry registry pfile st")
  case (Pair res st')
  then show ?thesis
    by (cases res) (simp_all add: checkVulnerabilities_cjs_def)
qed

lemma checkVulnerabilities_esm_Inr:
  "\<exists>vs. checkVulnerabilities_esm parse run = Inr vs"
  by (cases "checkWithNpmAudit_esm parse run") (simp_all add: checkVulnerabilities_esm_def)

lemma failure_loop_total:
  "\<forall>(nm, d) \<in> set es. d \<noteq> JNull \<Longrightarrow>
   failure_loop es acc = Some (acc @ map (\<lambda>(nm, d). failure_record nm d) es)"
proof (induction es arbitrary: acc)
  case Nil then show ?case by simp
next
  case (Cons e es)
  obtain nm d where e: "e = (nm, d)" by (cases e)
  with Cons.prems have d: "d \<noteq> JNull" and rest: "\<forall>(nm, d) \<in> set es. d \<noteq> JNull" by auto
  from d e Cons.IH[OF rest, of "acc @ [failure_record nm d]"] show ?case
    by (cases d) simp_all
qed

lemma failure_loop_null:
  "(nm, JNull) \<in> set es \<Longrightarrow> failure_loop es acc = None"
proof (induction es arbitrary: acc)
  case Nil then show ?case by simp
next
  case (Cons e es)
  obtain n d where e: "e = (n, d)" by (cases e)
  show ?case
  proof (cases "d = JNull")
    case True with e show ?thesis by simp
  next
    case False
    with Cons.prems e have "(nm, JNull) \<in> set es" by auto
    from Cons.IH[OF this, of "acc @ [failure_record n d]"] e False show ?thesis
      by (cases d) simp_all
  qed
qed

lemma str_includes_nonempty: "str_includes s p \<Longrightarrow> p \<noteq> [] \<Longrightarrow> s \<noteq> []"
  by (cases s) simp_all

lemmas esm_failure_path =
  checkVulnerabilities_esm_def checkWithNpmAudit_esm_def audit_try_esm_def
  audit_catch_esm_def

subsection \<open>Facts for concrete runs\<close>

lemmas security_run =
  getPackageVulnerabilities_def cacheKey_def initial_state_def registry_records_def
  registry_record_def get_prop_def truthy_opt_def or_else_def hits_def

lemmas audit_run =
  checkVulnerabilities_cjs_def hasNpmAudit_def checkWithNpmAudit_cjs_def audit_entry_cjs_def
  checkVulnerabilities_esm_def checkWithNpmAudit_esm_def audit_try_esm_def audit_entry_esm_def
  audit_catch_esm_def parse_failure_output_def failure_record_def
  get_prop_def truthy_opt_def or_else_def as_field_def startsWith_def
  example_parse_def example_report_def example_finding_def

lemma example_output_nonempty: "example_output \<noteq> []"
  by (simp add: example_output_def)

lemma example_output_no_zero: "\<not> str_includes example_output ''found 0 vulnerabilities''"
  by (simp add: example_output_def startsWith_def)

lemma message_names_audit: "str_includes ''Command failed: npm audit --json'' ''npm audit''"
  by (simp add: startsWith_def)

lemma message_no_zero: "\<not> str_includes ''Command failed: npm audit --json'' ''found 0 vulnerabilities''"
  by (simp add: startsWith_def)

lemma first_request_ok:
  "getPackageVulnerabilities (\<lambda>k n v. Body (JObj [])) ''a'' ''1.0.0'' initial_state
   = ([], \<lparr> cache = [''a@1.0.0'' \<mapsto> []], requests = [(''a'', ''1.0.0'')] \<rparr>)"
  by (simp add: security_run)


lemma zero_text: "str_includes ''found 0 vulnerabilities'' ''found 0 vulnerabilities''"
  by (simp add: startsWith_def)

lemma enoent_no_audit: "\<not> str_includes ''spawnSync /bin/sh ENOENT'' ''npm audit''"
  by (simp add: startsWith_def)

subsection \<open>The claims about security.js\<close>

text \<open>
  C4. \<^verbatim>\<open>checkVulnerabilities\<close> never raises, in either variant: for every behaviour
  of \<^verbatim>\<open>npm audit\<close>, of \<^verbatim>\<open>JSON.parse\<close>, of the registry and of the manifest it
  returns a list. When no source is usable the list is empty: in the CommonJS variant
  when the probe fails and the manifest cannot be read, when the probe fails and every
  registry request fails (starting from an empty cache), and when the probe succeeds but
  the audit run fails or prints something unparseable; in the ES-module variant when the
  audit prints nothing parseable, whether it exits normally or not.
\<close>

theorem C4_never_raises:
  "(\<exists>vs. fst (checkVulnerabilities_cjs parse probe run registry pfile st) = Inr vs)
   \<and> (\<exists>vs. checkVulnerabilities_esm parse run = Inr vs)
   \<and> (\<not> hasNpmAudit probe \<longrightarrow> (\<forall>pj. pfile \<noteq> Parsed pj) \<longrightarrow>
        fst (checkVulnerabilities_cjs parse probe run registry pfile st) = Inr [])
   \<and> (\<not> hasNpmAudit probe \<longrightarrow> cache st = Map.empty \<longrightarrow> (\<forall>k n v d. registry k n v \<noteq> Body d) \<longrightarrow>
        fst (checkVulnerabilities_cjs parse probe run registry pfile st) = Inr [])
   \<and> (hasNpmAudit probe \<longrightarrow> (\<forall>out. run = ExecOk out \<longrightarrow> parse out = None) \<longrightarrow>
        fst (checkVulnerabilities_cjs parse probe run registry pfile st) = Inr [])
   \<and> ((\<forall>out. run = ExecOk out \<longrightarrow> parse out = None) \<longrightarrow>
       (\<forall>e. run = ExecFail e \<longrightarrow> parse (stdout e) = None) \<longrightarrow>
        checkVulnerabilities_esm parse run = Inr [])"
proof (intro conjI impI)
  show "\<exists>vs. fst (checkVulnerabilities_cjs parse probe run registry pfile st) = Inr vs"
    by (rule checkVulnerabilities_cjs_Inr)
  show "\<exists>vs. checkVulnerabilities_esm parse run = Inr vs"
    by (rule checkVulnerabilities_esm_Inr)
next
  assume "\<not> hasNpmAudit probe" and "\<forall>pj. pfile \<noteq> Parsed pj"
  then show "fst (checkVulnerabilities_cjs parse probe run registry pfile st) = Inr []"
    by (cases pfile) (simp_all add: checkVulnerabilities_cjs_def checkWithNpmRegistry_def)
next
  assume np: "\<not> hasNpmAudit probe" and c: "cache st = Map.empty"
     and f: "\<forall>k n v d. registry k n v \<noteq> Body d"
  show "fst (checkVulnerabilities_cjs parse probe run registry pfile st) = Inr []"
  proof (cases pfile)
    case (Parsed pj)
    from registry_loop_all_fail[OF f c, of "allDeps pj" "[]"]
    obtain st' where "registry_loop registry (allDeps pj) [] st = ([], st')"
      by (cases "registry_loop registry (allDeps pj) [] st") auto
    with np Parsed show ?thesis
      by (simp add: checkVulnerabilities_cjs_def checkWithNpmRegistry_def)
  qed (use np in \<open>simp_all add: checkVulnerabilities_cjs_def checkWithNpmRegistry_def\<close>)
next
  assume "hasNpmAudit probe" and "\<forall>out. run = ExecOk out \<longrightarrow> parse out = None"
  then show "fst (checkVulnerabilities_cjs parse probe run registry pfile st) = Inr []"
    by (cases run) (simp_all add: checkVulnerabilities_cjs_def checkWithNpmAudit_cjs_def)
next
  assume a: "\<forall>out. run = ExecOk out \<longrightarrow> parse out = None"
     and b: "\<forall>e. run = ExecFail e \<longrightarrow> parse (stdout e) = None"
  show "checkVulnerabilities_esm parse run = Inr []"
  proof (cases run)
    case (ExecOk out)
    with a show ?thesis
      by (simp add: checkVulnerabilities_esm_def checkWithNpmAudit_esm_def audit_try_esm_def
                    audit_catch_esm_def)
  next
    case (ExecFail e)
    with b show ?thesis
      by (simp add: checkVulnerabilities_esm_def checkWithNpmAudit_esm_def audit_try_esm_def
                    audit_catch_esm_def parse_failure_output_def)
  qed
qed

theorem C4_witness:
  "fst (checkVulnerabilities_cjs (\<lambda>s. None)
          (ExecFail \<lparr> status = Some 127, stdout = [], message = ''Command failed: npm audit --json'' \<rparr>)
          (ExecFail \<lparr> status = Some 127, stdout = [], message = ''Command failed: npm audit --json'' \<rparr>)
          (\<lambda>k n v. NetworkError) Missing initial_state) = Inr []
   \<and> fst (checkVulnerabilities_cjs (\<lambda>s. None)
          (ExecFail \<lparr> status = Some 127, stdout = [], message = ''Command failed: npm audit --json'' \<rparr>)
          (ExecFail \<lparr> status = Some 127, stdout = [], message = ''Command failed: npm audit --json'' \<rparr>)
          (\<lambda>k n v. NetworkError)
          (Parsed \<lparr> dependencies = Some [(''lodash'', JStr ''^4.17.0'')],
                    devDependencies = None, peerDependencies = None \<rparr>)
          initial_state) = Inr []
   \<and> fst (checkVulnerabilities_cjs (\<lambda>s. None) (ExecOk ''not json'') (ExecOk ''not json'')
          (\<lambda>k n v. NetworkError) Missing initial_state) = Inr []
   \<and> checkVulnerabilities_esm (\<lambda>s. None) (ExecOk ''not json'') = Inr []
   \<and> checkVulnerabilities_esm (\<lambda>s. None)
        (ExecFail \<lparr> status = Some 127, stdout = [], message = ''Command failed: npm audit --json'' \<rparr>)
      = Inr []"
proof -
  let ?e = "\<lparr> status = Some 127, stdout = [], message = ''Command failed: npm audit --json'' \<rparr>"
  let ?reg = "\<lambda>(k::nat) (n::string) (v::string). NetworkError"
  let ?pj = "\<lparr> dependencies = Some [(''lodash'', JStr ''^4.17.0'')],
                devDependencies = None, peerDependencies = None \<rparr>"
  note a = C4_never_raises [of "\<lambda>s. None" "ExecFail ?e" "ExecFail ?e" ?reg Missing initial_state]
  note b = C4_never_raises [of "\<lambda>s. None" "ExecFail ?e" "ExecFail ?e" ?reg "Parsed ?pj" initial_state]
  note c = C4_never_raises [of "\<lambda>s. None" "ExecOk ''not json''" "ExecOk ''not json''" ?reg Missing initial_state]
  from a b c show ?thesis
    by (simp add: hasNpmAudit_def initial_state_def)
qed


text \<open>
  C6. The claim asks for the severity \<^verbatim>\<open>moderate\<close> whenever the source omits one, in
  the audit path as in the registry path. The audit path of the CommonJS variant copies
  \<^verbatim>\<open>data.severity\<close> without a default: for the example payload, whose finding has no
  severity, the record's severity is \<^verbatim>\<open>undefined\<close>. The ES-module variant on the same
  payload and the registry path of the CommonJS variant both fall back on
  \<^verbatim>\<open>moderate\<close>.
\<close>

theorem C6_cjs_audit_severity_undefined:
  "fst (checkVulnerabilities_cjs example_parse (ExecOk example_output) (ExecOk example_output)
          registry pfile st)
     = Inr [\<lparr> vuln_name = ''lodash'', version = Undefined, severity = Undefined,
               title = Val (JStr ''Prototype Pollution''), url = Val (JStr []),
               vulnerable_versions = Val (JStr ''<4.17.19''),
               patched_versions = Val (JStr ''No fix available''),
               advisory = Val (JStr []) \<rparr>]
   \<and> checkVulnerabilities_esm example_parse (ExecOk example_output)
     = Inr [\<lparr> vuln_name = ''lodash'', version = Val (JStr ''unknown''),
               severity = Val (JStr ''moderate''),
               title = Val (JStr ''Prototype Pollution''), url = Val (JStr []),
               vulnerable_versions = Val (JStr ''<4.17.19''),
               patched_versions = Val (JStr ''No fix available''),
               advisory = Val (JStr []) \<rparr>]
   \<and> severity (registry_record nm ver (JObj [(''title'', JStr ''Prototype Pollution'')]))
     = Val (JStr ''moderate'')"
  by (simp add: audit_run registry_record_def)


text \<open>
  C7, as amended. In the ES-module variant, when \<^verbatim>\<open>npm audit\<close> fails with exit status
  1, its message names \<^verbatim>\<open>npm audit\<close>, neither its output nor its message contains
  \<^verbatim>\<open>found 0 vulnerabilities\<close>, and its non-empty output parses to an object whose
  member \<^verbatim>\<open>vulnerabilities\<close> is an object with no \<^verbatim>\<open>null\<close> entry, the result is
  one generic record per entry of that object (name, severity with the default
  \<^verbatim>\<open>moderate\<close>, range). The result is the empty list when an entry of that object
  is \<^verbatim>\<open>null\<close>, when the exit status is not 1, when the message does not name
  \<^verbatim>\<open>npm audit\<close>, when the output or the message contains
  \<^verbatim>\<open>found 0 vulnerabilities\<close>, when the output is empty or cannot be parsed, and when
  the parsed output has no truthy member \<^verbatim>\<open>vulnerabilities\<close>.
\<close>

theorem C7_failure_output_amended:
  "(status e = Some 1 \<longrightarrow> str_includes (message e) ''npm audit'' \<longrightarrow>
    \<not> str_includes (stdout e) ''found 0 vulnerabilities'' \<longrightarrow>
    \<not> str_includes (message e) ''found 0 vulnerabilities'' \<longrightarrow>
    stdout e \<noteq> [] \<longrightarrow> parse (stdout e) = Some (JObj members) \<longrightarrow>
    map_of members ''vulnerabilities'' = Some (JObj findings) \<longrightarrow>
    (\<forall>(nm, d) \<in> set findings. d \<noteq> JNull) \<longrightarrow>
      checkVulnerabilities_esm parse (ExecFail e)
        = Inr (map (\<lambda>(nm, d). failure_record nm d) findings))
   \<and> (parse (stdout e) = Some (JObj members) \<longrightarrow>
       map_of members ''vulnerabilities'' = Some (JObj findings) \<longrightarrow>
       (\<exists>(nm, d) \<in> set findings. d = JNull) \<longrightarrow>
         checkVulnerabilities_esm parse (ExecFail e) = Inr [])
   \<and> (status e \<noteq> Some 1 \<longrightarrow> checkVulnerabilities_esm parse (ExecFail e) = Inr [])
   \<and> (\<not> str_includes (message e) ''npm audit'' \<longrightarrow>
         checkVulnerabilities_esm parse (ExecFail e) = Inr [])
   \<and> (str_includes (stdout e) ''found 0 vulnerabilities''
        \<or> str_includes (message e) ''found 0 vulnerabilities'' \<longrightarrow>
         checkVulnerabilities_esm parse (ExecFail e) = Inr [])
   \<and> (parse (stdout e) = None \<longrightarrow> checkVulnerabilities_esm parse (ExecFail e) = Inr [])
   \<and> (stdout e = [] \<longrightarrow> checkVulnerabilities_esm parse (ExecFail e) = Inr [])
   \<and> (parse (stdout e) = Some audit \<longrightarrow> \<not> truthy_opt (get_prop audit ''vulnerabilities'') \<longrightarrow>
         checkVulnerabilities_esm parse (ExecFail e) = Inr [])"
proof (intro conjI impI)
  assume "status e = Some 1" "str_includes (message e) ''npm audit''"
    "\<not> str_includes (stdout e) ''found 0 vulnerabilities''"
    "\<not> str_includes (message e) ''found 0 vulnerabilities''"
    "stdout e \<noteq> []" "parse (stdout e) = Some (JObj members)"
    "map_of members ''vulnerabilities'' = Some (JObj findings)"
    and nn: "\<forall>(nm, d) \<in> set findings. d \<noteq> JNull"
  moreover note failure_loop_total[OF nn, of "[]"]
  ultimately show "checkVulnerabilities_esm parse (ExecFail e)
        = Inr (map (\<lambda>(nm, d). failure_record nm d) findings)"
    by (simp add: esm_failure_path parse_failure_output_def get_prop_def truthy_opt_def)
next
  assume p: "parse (stdout e) = Some (JObj members)"
     and v: "map_of members ''vulnerabilities'' = Some (JObj findings)"
     and ex: "\<exists>(nm, d) \<in> set findings. d = JNull"
  from ex obtain nm where "(nm, JNull) \<in> set findings" by auto
  then have "failure_loop findings [] = None" by (rule failure_loop_null)
  with p v show "checkVulnerabilities_esm parse (ExecFail e) = Inr []"
    by (simp add: esm_failure_path parse_failure_output_def get_prop_def truthy_opt_def)
next
  assume "status e \<noteq> Some 1"
  then show "checkVulnerabilities_esm parse (ExecFail e) = Inr []"
    by (simp add: esm_failure_path)
next
  assume "\<not> str_includes (message e) ''npm audit''"
  then show "checkVulnerabilities_esm parse (ExecFail e) = Inr []"
    by (simp add: esm_failure_path)
next
  assume z: "str_includes (stdout e) ''found 0 vulnerabilities''
        \<or> str_includes (message e) ''found 0 vulnerabilities''"
  have ne: "''found 0 vulnerabilities'' \<noteq> []" by simp
  have a: "str_includes (stdout e) ''found 0 vulnerabilities'' \<Longrightarrow> stdout e \<noteq> []"
    by (rule str_includes_nonempty[OF _ ne])
  have b: "str_includes (message e) ''found 0 vulnerabilities'' \<Longrightarrow> message e \<noteq> []"
    by (rule str_includes_nonempty[OF _ ne])
  from z a b show "checkVulnerabilities_esm parse (ExecFail e) = Inr []"
    by (auto simp: esm_failure_path)
next
  assume "parse (stdout e) = None"
  then show "checkVulnerabilities_esm parse (ExecFail e) = Inr []"
    by (simp add: esm_failure_path parse_failure_output_def)
next
  assume "stdout e = []"
  then show "checkVulnerabilities_esm parse (ExecFail e) = Inr []"
    by (simp add: esm_failure_path parse_failure_output_def)
next
  assume "parse (stdout e) = Some audit" "\<not> truthy_opt (get_prop audit ''vulnerabilities'')"
  then show "checkVulnerabilities_esm parse (ExecFail e) = Inr []"
    by (cases audit) (simp_all add: esm_failure_path parse_failure_output_def)
qed

theorem C7_witness:
  "status \<lparr> status = Some 1, stdout = example_output,
            message = ''Command failed: npm audit --json'' \<rparr> = Some 1
   \<and> str_includes ''Command failed: npm audit --json'' ''npm audit''
   \<and> \<not> str_includes example_output ''found 0 vulnerabilities''
   \<and> \<not> str_includes ''Command failed: npm audit --json'' ''found 0 vulnerabilities''
   \<and> example_output \<noteq> []
   \<and> example_parse example_output
       = Some (JObj [(''vulnerabilities'', JObj [(''lodash'', example_finding)])])
   \<and> example_finding \<noteq> JNull
   \<and> checkVulnerabilities_esm example_parse
        (ExecFail \<lparr> status = Some 1, stdout = example_output,
                    message = ''Command failed: npm audit --json'' \<rparr>)
      = Inr [failure_record ''lodash'' example_finding]
   \<and> checkVulnerabilities_esm
        (\<lambda>s. Some (JObj [(''vulnerabilities'', JObj [(''lodash'', JNull)])]))
        (ExecFail \<lparr> status = Some 1, stdout = example_output,
                    message = ''Command failed: npm audit --json'' \<rparr>) = Inr []
   \<and> checkVulnerabilities_esm example_parse
        (ExecFail \<lparr> status = None, stdout = example_output,
                    message = ''spawnSync /bin/sh ETIMEDOUT'' \<rparr>) = Inr []
   \<and> \<not> str_includes ''spawnSync /bin/sh ENOENT'' ''npm audit''
   \<and> checkVulnerabilities_esm example_parse
        (ExecFail \<lparr> status = Some 1, stdout = example_output,
                    message = ''spawnSync /bin/sh ENOENT'' \<rparr>) = Inr []
   \<and> str_includes ''found 0 vulnerabilities'' ''found 0 vulnerabilities''
   \<and> checkVulnerabilities_esm example_parse
        (ExecFail \<lparr> status = Some 1, stdout = ''found 0 vulnerabilities'',
                    message = ''Command failed: npm audit --json'' \<rparr>) = Inr []
   \<and> checkVulnerabilities_esm (\<lambda>s. None)
        (ExecFail \<lparr> status = Some 1, stdout = example_output,
                    message = ''Command failed: npm audit --json'' \<rparr>) = Inr []
   \<and> checkVulnerabilities_esm example_parse
        (ExecFail \<lparr> status = Some 1, stdout = [],
                    message = ''Command failed: npm audit --json'' \<rparr>) = Inr []
   \<and> \<not> truthy_opt (get_prop (JObj [(''error'', JObj [])]) ''vulnerabilities'')
   \<and> checkVulnerabilities_esm (\<lambda>s. Some (JObj [(''error'', JObj [])]))
        (ExecFail \<lparr> status = Some 1, stdout = example_output,
                    message = ''Command failed: npm audit --json'' \<rparr>) = Inr []"
proof -
  let ?e = "\<lparr> status = Some 1, stdout = example_output,
              message = ''Command failed: npm audit --json'' \<rparr>"
  let ?o = "\<lparr> status = Some 1, stdout = [],
              message = ''Command failed: npm audit --json'' \<rparr>"
  let ?pe = "\<lambda>s::string. Some (JObj [(''error'', JObj [])])"
  let ?t = "\<lparr> status = None, stdout = example_output,
              message = ''spawnSync /bin/sh ETIMEDOUT'' \<rparr>"
  let ?n = "\<lparr> status = Some 1, stdout = example_output,
              message = ''spawnSync /bin/sh ENOENT'' \<rparr>"
  let ?z = "\<lparr> status = Some 1, stdout = ''found 0 vulnerabilities'',
              message = ''Command failed: npm audit --json'' \<rparr>"
  let ?pn = "\<lambda>s::string. Some (JObj [(''vulnerabilities'', JObj [(''lodash'', JNull)])])"
  have p: "example_parse example_output
       = Some (JObj [(''vulnerabilities'', JObj [(''lodash'', example_finding)])])"
    by (simp add: example_parse_def example_report_def)
  have f: "example_finding \<noteq> JNull" by (simp add: example_finding_def)
  note a = C7_failure_output_amended [of ?e example_parse
             "[(''vulnerabilities'', JObj [(''lodash'', example_finding)])]"
             "[(''lodash'', example_finding)]"]
  note n = C7_failure_output_amended [of ?e ?pn
             "[(''vulnerabilities'', JObj [(''lodash'', JNull)])]" "[(''lodash'', JNull)]"]
  note b = C7_failure_output_amended [of ?t example_parse]
  note m = C7_failure_output_amended [of ?n example_parse]
  note z = C7_failure_output_amended [of ?z example_parse]
  note c = C7_failure_output_amended [of ?e "\<lambda>s. None"]
  from a p f example_output_no_zero message_no_zero message_names_audit example_output_nonempty
  have A: "checkVulnerabilities_esm example_parse (ExecFail ?e)
            = Inr [failure_record ''lodash'' example_finding]"
    by (simp del: str_includes.simps)
  from n have N: "checkVulnerabilities_esm ?pn (ExecFail ?e) = Inr []"
    by (simp del: str_includes.simps)
  from b have B: "checkVulnerabilities_esm example_parse (ExecFail ?t) = Inr []"
    by (simp del: str_includes.simps)
  from m enoent_no_audit have M: "checkVulnerabilities_esm example_parse (ExecFail ?n) = Inr []"
    by (simp del: str_includes.simps)
  from z zero_text have Z: "checkVulnerabilities_esm example_parse (ExecFail ?z) = Inr []"
    by (simp del: str_includes.simps)
  from c have C: "checkVulnerabilities_esm (\<lambda>s. None) (ExecFail ?e) = Inr []"
    by (simp del: str_includes.simps)
  note o = C7_failure_output_amended [of ?o example_parse]
  note v = C7_failure_output_amended [of ?e ?pe _ _ "JObj [(''error'', JObj [])]"]
  have nv: "\<not> truthy_opt (get_prop (JObj [(''error'', JObj [])]) ''vulnerabilities'')"
    by (simp add: get_prop_def truthy_opt_def)
  from o have O: "checkVulnerabilities_esm example_parse (ExecFail ?o) = Inr []"
    by (simp del: str_includes.simps)
  from v nv have V: "checkVulnerabilities_esm ?pe (ExecFail ?e) = Inr []"
    by (simp del: str_includes.simps)
  from A N B M Z C O V nv p f example_output_no_zero message_no_zero message_names_audit
       example_output_nonempty enoent_no_audit zero_text
  show ?thesis by (simp del: str_includes.simps)
qed

text \<open>
  The claim C7 as stated fails: an audit that exits with status 2 and prints the example
  payload, which parses, gives the empty list.
\<close>

theorem C7_counterexample:
  "checkVulnerabilities_esm example_parse
     (ExecFail \<lparr> status = Some 2, stdout = example_output,
                 message = ''Command failed: npm audit --json'' \<rparr>) = Inr []
   \<and> example_parse example_output
       = Some (JObj [(''vulnerabilities'', JObj [(''lodash'', example_finding)])])"
  by (simp add: audit_run)

text \<open>
  C8, as amended. If a request for \<^verbatim>\<open>name@version\<close> did not fail (it was answered
  from the cache, or its fetch returned a body that was processed to the end), then after
  any further sequence of requests a request for the same \<^verbatim>\<open>name@version\<close> is
  answered from the cache with the same result and without a request to the registry; the
  registry is hit at most once for that key from the first request on. A request for a
  key that is not cached and whose fetch fails (network error, status not OK, unusable
  body) returns the empty list, sends one request and leaves the cache as it was; the
  next request for the same \<^verbatim>\<open>name@version\<close> is sent to the registry again.
\<close>

theorem C8_cache_amended:
  "(getPackageVulnerabilities registry nm ver st = (vs, st1) \<longrightarrow>
    (cache st (cacheKey nm ver) \<noteq> None
      \<or> (\<exists>data. registry (length (requests st)) nm ver = Body data
                 \<and> registry_records nm ver data \<noteq> None)) \<longrightarrow>
    st2 = run_requests registry calls st1 \<longrightarrow>
      getPackageVulnerabilities registry nm ver st2 = (vs, st2)
      \<and> hits (cacheKey nm ver) st2 = hits (cacheKey nm ver) st1
      \<and> hits (cacheKey nm ver) st2 \<le> hits (cacheKey nm ver) st + 1)
   \<and> (cache st (cacheKey nm ver) = None \<longrightarrow>
       (\<forall>data. registry (length (requests st)) nm ver = Body data \<longrightarrow>
               registry_records nm ver data = None) \<longrightarrow>
         getPackageVulnerabilities registry nm ver st
           = ([], st\<lparr> requests := requests st @ [(nm, ver)] \<rparr>)
         \<and> requests (snd (getPackageVulnerabilities registry nm ver
                            (st\<lparr> requests := requests st @ [(nm, ver)] \<rparr>)))
           = requests st @ [(nm, ver), (nm, ver)])"
proof (intro conjI impI)
  assume first: "getPackageVulnerabilities registry nm ver st = (vs, st1)"
     and ok: "cache st (cacheKey nm ver) \<noteq> None
               \<or> (\<exists>data. registry (length (requests st)) nm ver = Body data
                          \<and> registry_records nm ver data \<noteq> None)"
     and later: "st2 = run_requests registry calls st1"
  from gpv_not_failed[OF first ok] have c1: "cache st1 (cacheKey nm ver) = Some vs" .
  from run_requests_cached[OF c1, of registry calls] later
  have c2: "cache st2 (cacheKey nm ver) = Some vs"
   and h: "hits (cacheKey nm ver) st2 = hits (cacheKey nm ver) st1" by simp_all
  from gpv_hits_le[of "cacheKey nm ver" registry nm ver st] first
  have le: "hits (cacheKey nm ver) st1 \<le> hits (cacheKey nm ver) st + 1" by simp
  show "getPackageVulnerabilities registry nm ver st2 = (vs, st2)" by (rule gpv_cached[OF c2])
  show "hits (cacheKey nm ver) st2 = hits (cacheKey nm ver) st1" by (rule h)
  from h le show "hits (cacheKey nm ver) st2 \<le> hits (cacheKey nm ver) st + 1" by simp
next
  assume un: "cache st (cacheKey nm ver) = None"
     and bad: "\<forall>data. registry (length (requests st)) nm ver = Body data \<longrightarrow>
               registry_records nm ver data = None"
  show "getPackageVulnerabilities registry nm ver st
           = ([], st\<lparr> requests := requests st @ [(nm, ver)] \<rparr>)"
    using un bad by (rule gpv_failed[of st nm ver registry])
  from un have "cache (st\<lparr> requests := requests st @ [(nm, ver)] \<rparr>) (cacheKey nm ver) = None"
    by simp
  from gpv_uncached_hits[OF this, of registry]
  show "requests (snd (getPackageVulnerabilities registry nm ver
                            (st\<lparr> requests := requests st @ [(nm, ver)] \<rparr>)))
           = requests st @ [(nm, ver), (nm, ver)]" by simp
qed

theorem C8_witness:
  "getPackageVulnerabilities (\<lambda>k n v. Body (JObj [])) ''a'' ''1.0.0'' initial_state
     = ([], \<lparr> cache = [''a@1.0.0'' \<mapsto> []], requests = [(''a'', ''1.0.0'')] \<rparr>)
   \<and> (\<lambda>k n v. Body (JObj [])) (length (requests initial_state)) ''a'' ''1.0.0'' = Body (JObj [])
   \<and> registry_records ''a'' ''1.0.0'' (JObj []) \<noteq> None
   \<and> run_requests (\<lambda>k n v. Body (JObj [])) [(''b'', ''2.0.0'')]
        \<lparr> cache = [''a@1.0.0'' \<mapsto> []], requests = [(''a'', ''1.0.0'')] \<rparr>
      = \<lparr> cache = [''a@1.0.0'' \<mapsto> [], ''b@2.0.0'' \<mapsto> []],
          requests = [(''a'', ''1.0.0''), (''b'', ''2.0.0'')] \<rparr>
   \<and> getPackageVulnerabilities (\<lambda>k n v. Body (JObj [])) ''a'' ''1.0.0''
        \<lparr> cache = [''a@1.0.0'' \<mapsto> [], ''b@2.0.0'' \<mapsto> []],
          requests = [(''a'', ''1.0.0''), (''b'', ''2.0.0'')] \<rparr>
      = ([], \<lparr> cache = [''a@1.0.0'' \<mapsto> [], ''b@2.0.0'' \<mapsto> []],
               requests = [(''a'', ''1.0.0''), (''b'', ''2.0.0'')] \<rparr>)
   \<and> hits (cacheKey ''a'' ''1.0.0'')
        \<lparr> cache = [''a@1.0.0'' \<mapsto> [], ''b@2.0.0'' \<mapsto> []],
          requests = [(''a'', ''1.0.0''), (''b'', ''2.0.0'')] \<rparr> = 1
   \<and> cache initial_state (cacheKey ''a'' ''1.0.0'') = None
   \<and> getPackageVulnerabilities (\<lambda>k n v. HttpError 503) ''a'' ''1.0.0'' initial_state
      = ([], initial_state\<lparr> requests := [(''a'', ''1.0.0'')] \<rparr>)
   \<and> requests (snd (getPackageVulnerabilities (\<lambda>k n v. HttpError 503) ''a'' ''1.0.0''
                       (initial_state\<lparr> requests := [(''a'', ''1.0.0'')] \<rparr>)))
      = [(''a'', ''1.0.0''), (''a'', ''1.0.0'')]"
proof -
  let ?reg = "\<lambda>(k::nat) (n::string) (v::string). Body (JObj [])"
  let ?bad = "\<lambda>(k::nat) (n::string) (v::string). HttpError 503"
  let ?st1 = "\<lparr> cache = [''a@1.0.0'' \<mapsto> []], requests = [(''a'', ''1.0.0'')] \<rparr>"
  let ?st2 = "\<lparr> cache = [''a@1.0.0'' \<mapsto> [], ''b@2.0.0'' \<mapsto> []],
          requests = [(''a'', ''1.0.0''), (''b'', ''2.0.0'')] \<rparr>"
  have ok: "cache initial_state (cacheKey ''a'' ''1.0.0'') \<noteq> None
            \<or> (\<exists>data. ?reg (length (requests initial_state)) ''a'' ''1.0.0'' = Body data
                      \<and> registry_records ''a'' ''1.0.0'' data \<noteq> None)"
    by (simp add: security_run)
  have later: "?st2 = run_requests ?reg [(''b'', ''2.0.0'')] ?st1"
    by (simp add: security_run)
  have h: "hits (cacheKey ''a'' ''1.0.0'') ?st2 = 1" by (simp add: security_run)
  have rr: "registry_records ''a'' ''1.0.0'' (JObj []) \<noteq> None" by (simp add: security_run)
  have un: "cache initial_state (cacheKey ''a'' ''1.0.0'') = None"
    by (simp add: initial_state_def)
  have rq: "requests initial_state = []" by (simp add: initial_state_def)
  note a = C8_cache_amended [of ?reg "''a''" "''1.0.0''" initial_state "[]" ?st1 ?st2
             "[(''b'', ''2.0.0'')]"]
  note b = C8_cache_amended [of ?bad "''a''" "''1.0.0''" initial_state]
  from a first_request_ok ok later have A:
    "getPackageVulnerabilities ?reg ''a'' ''1.0.0'' ?st2 = ([], ?st2)" by blast
  from b un rq have B:
    "getPackageVulnerabilities ?bad ''a'' ''1.0.0'' initial_state
      = ([], initial_state\<lparr> requests := [(''a'', ''1.0.0'')] \<rparr>)
     \<and> requests (snd (getPackageVulnerabilities ?bad ''a'' ''1.0.0''
                       (initial_state\<lparr> requests := [(''a'', ''1.0.0'')] \<rparr>)))
      = [(''a'', ''1.0.0''), (''a'', ''1.0.0'')]" by simp
  from A B first_request_ok later[symmetric] h rr un
  show ?thesis by simp
qed

text \<open>
  The claim C8 as stated fails: when the registry cannot be reached, two requests for the
  same \<^verbatim>\<open>name@version\<close> both reach out to the registry.
\<close>

theorem C8_counterexample:
  "requests (snd (getPackageVulnerabilities (\<lambda>k n v. NetworkError) ''a'' ''1.0.0''
               (snd (getPackageVulnerabilities (\<lambda>k n v. NetworkError) ''a'' ''1.0.0''
                      initial_state))))
   = [(''a'', ''1.0.0''), (''a'', ''1.0.0'')]"
  by (simp add: security_run)


end
